theory Spec2Isabelle
  imports Complex_Main
begin

section \<open>Python values\<close>

text \<open>
  \<^verbatim>\<open>app.py\<close> is a Flask application: it reads a YouTube link, fetches the caption track
  through \<^verbatim>\<open>yt_dlp\<close>, and sends prompts to a Mistral chat model. The values that flow
  through it are Python strings and the documents produced by the JSON decoder.

  A Python \<^verbatim>\<open>str\<close> is a list of characters; a \<^typ>\<open>char\<close> stands for the code point of
  the same number, so the strings of this development are the Python strings over
  U+0000 .. U+00FF, and \<^const>\<open>length\<close> is \<^verbatim>\<open>len\<close>.
\<close>

definition code_point :: "char \<Rightarrow> nat" where
  "code_point c = of_char c"

definition isspace :: "char \<Rightarrow> bool" where
  \<comment> \<open>\<^verbatim>\<open>str.isspace\<close>, the characters \<^verbatim>\<open>str.strip()\<close> removes\<close>
  "isspace c =
     (let n = code_point c
      in (9 \<le> n \<and> n \<le> 13) \<or> (28 \<le> n \<and> n \<le> 32) \<or> n = 133 \<or> n = 160)"

definition isdecimal :: "char \<Rightarrow> bool" where
  "isdecimal c = (let n = code_point c in 48 \<le> n \<and> n \<le> 57)"

definition isalnum :: "char \<Rightarrow> bool" where
  \<comment> \<open>\<^verbatim>\<open>str.isalnum\<close>: letters, digits and numeric characters\<close>
  "isalnum c =
     (let n = code_point c
      in (48 \<le> n \<and> n \<le> 57) \<or> (65 \<le> n \<and> n \<le> 90) \<or> (97 \<le> n \<and> n \<le> 122)
         \<or> n = 170 \<or> n = 178 \<or> n = 179 \<or> n = 181 \<or> n = 185 \<or> n = 186
         \<or> (188 \<le> n \<and> n \<le> 190) \<or> (192 \<le> n \<and> n \<le> 214)
         \<or> (216 \<le> n \<and> n \<le> 246) \<or> (248 \<le> n \<and> n \<le> 255))"

text \<open>
  A float is kept as the real number it denotes, or as one of the three special values
  the JSON decoder also accepts (\<^verbatim>\<open>Infinity\<close>, \<^verbatim>\<open>-Infinity\<close>, \<^verbatim>\<open>NaN\<close>). The program never
  does arithmetic on a float; it only tests, converts or rejects it.
\<close>

datatype pyfloat = Finite real | PosInf | NegInf | NaN

text \<open>
  A \<^verbatim>\<open>dict\<close> keeps its insertion order (\<^verbatim>\<open>list(d.keys())[0]\<close> is read below), so it is an
  association list; its keys are strings, as in every decoded JSON object. A dictionary
  holds a key once; a lookup reads the first entry of the key.
\<close>

datatype json =
    JNull
  | JBool bool
  | JInt int
  | JFloat pyfloat
  | JStr string
  | JList "json list"
  | JObj "(string \<times> json) list"

text \<open>
  Exceptions are values. \<open>Exception m\<close> is an exception whose \<^verbatim>\<open>str()\<close> is \<open>m\<close>: the ones
  \<^verbatim>\<open>app.py\<close> raises itself, and the ones its libraries raise. The other constructors are
  the exceptions the interpreter raises on an ill-typed or out-of-range operation.
\<close>

datatype exn =
    Exception string
  | TypeError
  | KeyError
  | IndexError
  | ValueError
  | AttributeError
  | OverflowError

type_synonym 'a result = "exn + 'a"

definition and_then :: "'a result \<Rightarrow> ('a \<Rightarrow> 'b result) \<Rightarrow> 'b result" where
  "and_then r f = (case r of Inl e \<Rightarrow> Inl e | Inr x \<Rightarrow> f x)"

definition str_exn :: "(exn \<Rightarrow> string) \<Rightarrow> exn \<Rightarrow> string" where
  \<comment> \<open>\<^verbatim>\<open>str(e)\<close>; the first argument is the interpreter's message of its own exceptions\<close>
  "str_exn msg e = (case e of Exception m \<Rightarrow> m | _ \<Rightarrow> msg e)"

subsection \<open>Operations of the interpreter\<close>

definition truthy :: "json \<Rightarrow> bool" where
  "truthy v =
     (case v of
        JNull \<Rightarrow> False
      | JBool b \<Rightarrow> b
      | JInt n \<Rightarrow> n \<noteq> 0
      | JFloat x \<Rightarrow> x \<noteq> Finite 0
      | JStr s \<Rightarrow> s \<noteq> []
      | JList xs \<Rightarrow> xs \<noteq> []
      | JObj kvs \<Rightarrow> kvs \<noteq> [])"

definition startswith :: "string \<Rightarrow> string \<Rightarrow> bool" where
  "startswith s m = (take (length m) s = m)"

definition endswith :: "string \<Rightarrow> string \<Rightarrow> bool" where
  "endswith s m = (length m \<le> length s \<and> drop (length s - length m) s = m)"

fun substring :: "string \<Rightarrow> string \<Rightarrow> bool" where
  "substring m [] = (m = [])"
| "substring m (c # cs) = (startswith (c # cs) m \<or> substring m cs)"

definition py_in :: "string \<Rightarrow> json \<Rightarrow> bool result" where
  \<comment> \<open>\<^verbatim>\<open>k in v\<close> for a string \<open>k\<close>\<close>
  "py_in k v =
     (case v of
        JObj kvs \<Rightarrow> Inr (k \<in> set (map fst kvs))
      | JList xs \<Rightarrow> Inr (JStr k \<in> set xs)
      | JStr s \<Rightarrow> Inr (substring k s)
      | _ \<Rightarrow> Inl TypeError)"

definition getitem :: "json \<Rightarrow> string \<Rightarrow> json result" where
  \<comment> \<open>\<^verbatim>\<open>v[k]\<close> for a string \<open>k\<close>\<close>
  "getitem v k =
     (case v of
        JObj kvs \<Rightarrow> (case map_of kvs k of None \<Rightarrow> Inl KeyError | Some x \<Rightarrow> Inr x)
      | _ \<Rightarrow> Inl TypeError)"

definition getitem0 :: "json \<Rightarrow> json result" where
  \<comment> \<open>\<^verbatim>\<open>v[0]\<close>\<close>
  "getitem0 v =
     (case v of
        JList xs \<Rightarrow> (case xs of [] \<Rightarrow> Inl IndexError | x # _ \<Rightarrow> Inr x)
      | JStr s \<Rightarrow> (case s of [] \<Rightarrow> Inl IndexError | c # _ \<Rightarrow> Inr (JStr [c]))
      | JObj kvs \<Rightarrow> Inl KeyError
      | _ \<Rightarrow> Inl TypeError)"

definition iter :: "json \<Rightarrow> json list result" where
  \<comment> \<open>the elements a \<^verbatim>\<open>for\<close> loop over \<open>v\<close> visits\<close>
  "iter v =
     (case v of
        JList xs \<Rightarrow> Inr xs
      | JObj kvs \<Rightarrow> Inr (map (JStr \<circ> fst) kvs)
      | JStr s \<Rightarrow> Inr (map (\<lambda>c. JStr [c]) s)
      | _ \<Rightarrow> Inl TypeError)"

definition keys :: "json \<Rightarrow> string list result" where
  \<comment> \<open>\<^verbatim>\<open>list(v.keys())\<close>\<close>
  "keys v = (case v of JObj kvs \<Rightarrow> Inr (map fst kvs) | _ \<Rightarrow> Inl AttributeError)"

definition strip :: "string \<Rightarrow> string" where
  "strip s = rev (dropWhile isspace (rev (dropWhile isspace s)))"

fun join :: "string \<Rightarrow> string list \<Rightarrow> string" where
  "join sep [] = []"
| "join sep [s] = s"
| "join sep (s # t # ts) = s @ sep @ join sep (t # ts)"

fun strings :: "json list \<Rightarrow> string list option" where
  "strings [] = Some []"
| "strings (JStr s # vs) = map_option ((#) s) (strings vs)"
| "strings (_ # vs) = None"

definition py_join :: "string \<Rightarrow> json list \<Rightarrow> string result" where
  \<comment> \<open>\<^verbatim>\<open>sep.join(vs)\<close>: every item has to be a \<^verbatim>\<open>str\<close>\<close>
  "py_join sep vs = (case strings vs of None \<Rightarrow> Inl TypeError | Some ss \<Rightarrow> Inr (join sep ss))"

section \<open>The video identifier\<close>

text \<open>
  \<^verbatim>\<open>
  def get_video_id(url):
      if not url: return None
      match = re.search(r'(?<=v=)[\w-]+|(?<=youtu\.be\/)[\w-]+', url)
      return match.group(0) if match else None
  \<close>
  \<^verbatim>\<open>re.search\<close> tries the positions of \<open>url\<close> from left to right. At a position, either
  alternative first looks behind (the text before the position ends with \<^verbatim>\<open>v=\<close>, or with
  \<^verbatim>\<open>youtu.be/\<close>) and then takes the longest non-empty run of \<^verbatim>\<open>[\w-]\<close>; nothing follows the
  run in the pattern, so the first position where a look-behind holds and a character
  of the class follows is the match.
\<close>

definition id_char :: "char \<Rightarrow> bool" where
  \<comment> \<open>the class \<^verbatim>\<open>[\w-]\<close>\<close>
  "id_char c = (isalnum c \<or> c = CHR ''_'' \<or> c = CHR ''-'')"

definition is_marker :: "string \<Rightarrow> bool" where
  \<comment> \<open>the two texts the pattern looks behind for\<close>
  "is_marker m = (m = ''v='' \<or> m = ''youtu.be/'')"

definition lookbehind :: "string \<Rightarrow> bool" where
  "lookbehind behind = (endswith behind ''v='' \<or> endswith behind ''youtu.be/'')"

fun re_search :: "string \<Rightarrow> string \<Rightarrow> string option" where
  "re_search behind [] = None"
| "re_search behind (c # cs) =
     (if lookbehind behind \<and> id_char c then Some (takeWhile id_char (c # cs))
      else re_search (behind @ [c]) cs)"

definition get_video_id :: "string \<Rightarrow> string option" where
  "get_video_id url = (if url = [] then None else re_search [] url)"

section \<open>The collaborators\<close>

text \<open>
  What the program calls but does not define is a parameter of the model:
  \<^item> \<open>extract_info\<close>: \<^verbatim>\<open>yt_dlp.YoutubeDL(ydl_opts).extract_info(url, download=False)\<close>, the
    video's metadata or the exception raised on the way;
  \<^item> \<open>urlopen\<close>: \<^verbatim>\<open>ydl.urlopen(subtitle_url).read().decode('utf-8')\<close>;
  \<^item> \<open>json_loads\<close>: \<^verbatim>\<open>json.loads\<close>;
  \<^item> \<open>mistral_client\<close>: the module's client, \<^verbatim>\<open>None\<close> when the key is missing or the
    constructor failed; the function is
    \<^verbatim>\<open>chat.complete(model=MODEL_NAME, messages=[{"role": "user", "content": prompt}])\<close>
    followed by \<^verbatim>\<open>.choices[0].message.content\<close>, from the prompt;
  \<^item> \<open>message_of\<close>: the message text of an exception the interpreter raises;
  \<^item> \<open>str_of_list\<close>: \<^verbatim>\<open>str()\<close> of a list, which an f-string applies to a list it is given.
\<close>

record world =
  YT_DLP_AVAILABLE :: bool
  extract_info :: "string \<Rightarrow> json result"
  urlopen :: "json \<Rightarrow> string result"
  json_loads :: "string \<Rightarrow> json result"
  mistral_client :: "(string \<Rightarrow> json result) option"
  message_of :: "exn \<Rightarrow> string"
  str_of_list :: "json list \<Rightarrow> string"

section \<open>Fetching the transcript\<close>

subsection \<open>Choosing the caption track (lines 68 to 86)\<close>

definition in_and_truthy :: "json \<Rightarrow> string \<Rightarrow> bool result" where
  \<comment> \<open>\<^verbatim>\<open>k in info and info[k]\<close>, as a condition\<close>
  "in_and_truthy info k =
     and_then (py_in k info) (\<lambda>present.
       if present then and_then (getitem info k) (\<lambda>v. Inr (truthy v)) else Inr False)"

definition first_url :: "json \<Rightarrow> string \<Rightarrow> json result" where
  \<comment> \<open>\<^verbatim>\<open>captions[lang][0]['url']\<close>\<close>
  "first_url captions lang =
     and_then (getitem captions lang) (\<lambda>tracks.
     and_then (getitem0 tracks) (\<lambda>track.
       getitem track ''url''))"

definition choose_subtitle_url :: "json \<Rightarrow> json result" where
  \<comment> \<open>the value of \<^verbatim>\<open>subtitle_url\<close> after the \<^verbatim>\<open>if\<close>/\<^verbatim>\<open>elif\<close>/\<^verbatim>\<open>else\<close>; \<^verbatim>\<open>None\<close> is \<open>JNull\<close>\<close>
  "choose_subtitle_url info =
     and_then (in_and_truthy info ''subtitles'') (\<lambda>manual.
       if manual then
         and_then (getitem info ''subtitles'') (\<lambda>subtitles.
         and_then (py_in ''en'' subtitles) (\<lambda>en.
           if en then first_url subtitles ''en''
           else and_then (keys subtitles) (\<lambda>ks.
             if ks \<noteq> [] then first_url subtitles (hd ks) else Inr JNull)))
       else
         and_then (in_and_truthy info ''automatic_captions'') (\<lambda>automatic.
           if automatic then
             and_then (getitem info ''automatic_captions'') (\<lambda>captions.
             and_then (py_in ''en'' captions) (\<lambda>en.
               if en then first_url captions ''en'' else Inr JNull))
           else Inl (Exception ''No captions available for this video'')))"

definition subtitle_url_of :: "json \<Rightarrow> json result" where
  \<comment> \<open>lines 68 to 89: the choice, then \<^verbatim>\<open>if not subtitle_url: raise\<close>\<close>
  "subtitle_url_of info =
     and_then (choose_subtitle_url info) (\<lambda>subtitle_url.
       if \<not> truthy subtitle_url then Inl (Exception ''Could not find subtitle URL'')
       else Inr subtitle_url)"

subsection \<open>Flattening the caption document (lines 98 to 111)\<close>

definition get_default :: "json \<Rightarrow> string \<Rightarrow> json \<Rightarrow> json result" where
  \<comment> \<open>\<^verbatim>\<open>v.get(k, d)\<close>\<close>
  "get_default v k d =
     (case v of
        JObj kvs \<Rightarrow> Inr (case map_of kvs k of None \<Rightarrow> d | Some x \<Rightarrow> x)
      | _ \<Rightarrow> Inl AttributeError)"

fun segs_loop :: "json list \<Rightarrow> json list \<Rightarrow> json list result" where
  \<comment> \<open>\<^verbatim>\<open>for seg in event['segs']\<close>, on the list \<^verbatim>\<open>transcript_parts\<close>\<close>
  "segs_loop [] transcript_parts = Inr transcript_parts"
| "segs_loop (seg # segs) transcript_parts =
     and_then (py_in ''utf8'' seg) (\<lambda>has_text.
       if has_text then
         and_then (getitem seg ''utf8'') (\<lambda>text.
           segs_loop segs (transcript_parts @ [text]))
       else segs_loop segs transcript_parts)"

fun events_loop :: "json list \<Rightarrow> json list \<Rightarrow> json list result" where
  \<comment> \<open>\<^verbatim>\<open>for event in subtitles.get('events', [])\<close>\<close>
  "events_loop [] transcript_parts = Inr transcript_parts"
| "events_loop (event # events) transcript_parts =
     and_then (py_in ''segs'' event) (\<lambda>has_segs.
       if has_segs then
         and_then (getitem event ''segs'') (\<lambda>segs_value.
         and_then (iter segs_value) (\<lambda>segs.
         and_then (segs_loop segs transcript_parts) (\<lambda>transcript_parts'.
           events_loop events transcript_parts')))
       else events_loop events transcript_parts)"

definition transcript_parts_of :: "json \<Rightarrow> json list result" where
  "transcript_parts_of subtitles =
     and_then (get_default subtitles ''events'' (JList [])) (\<lambda>events_value.
     and_then (iter events_value) (\<lambda>events.
       events_loop events []))"

definition transcript_text_of :: "json \<Rightarrow> string result" where
  "transcript_text_of subtitles =
     and_then (transcript_parts_of subtitles) (\<lambda>transcript_parts.
     and_then (py_join '' '' transcript_parts) (\<lambda>transcript_text.
       if strip transcript_text = [] then Inl (Exception ''Transcript extracted but empty'')
       else Inr transcript_text))"

subsection \<open>The whole fetch\<close>

definition fetch_body :: "world \<Rightarrow> string \<Rightarrow> string result" where
  \<comment> \<open>the body of the \<^verbatim>\<open>try\<close>\<close>
  "fetch_body w video_id =
     and_then (extract_info w (''https://www.youtube.com/watch?v='' @ video_id)) (\<lambda>info.
     and_then (subtitle_url_of info) (\<lambda>subtitle_url.
     and_then (urlopen w subtitle_url) (\<lambda>subtitle_data.
     and_then (json_loads w subtitle_data) (\<lambda>subtitles.
       transcript_text_of subtitles))))"

definition get_transcript_with_ytdlp :: "world \<Rightarrow> string \<Rightarrow> string result" where
  "get_transcript_with_ytdlp w video_id =
     (if \<not> YT_DLP_AVAILABLE w then Inl (Exception ''yt-dlp library not available'')
      else case fetch_body w video_id of
             Inr transcript_text \<Rightarrow> Inr transcript_text
           | Inl e \<Rightarrow>
               Inl (Exception (''Failed to fetch transcript with yt-dlp: ''
                                 @ str_exn (message_of w) e)))"

section \<open>Summarising\<close>

definition SUMMARY_INSTRUCTIONS :: string where
  "SUMMARY_INSTRUCTIONS =
     ''Summarize this video transcript in 3 paragraphs. Focus on the main topic and conclusion. List out the main points in list form which must be bullet list form. Give significance to main points. STAY ONLY ACCORDING TO THE TRANSCRIPT GIVEN AND NOTHING ELSE.\<newline>\<newline>''"

definition summary_prompt :: "string \<Rightarrow> string" where
  \<comment> \<open>\<^verbatim>\<open>prompt\<close> of \<^verbatim>\<open>summarize_transcript\<close>\<close>
  "summary_prompt transcript = SUMMARY_INSTRUCTIONS @ take 10000 transcript"

definition summarize_transcript :: "world \<Rightarrow> string \<Rightarrow> json \<times> bool" where
  "summarize_transcript w transcript =
     (case mistral_client w of
        None \<Rightarrow> (JStr ''Mistral client unavailable. Check API key or imports.'', False)
      | Some chat \<Rightarrow>
          (case chat (summary_prompt transcript) of
             Inr msg \<Rightarrow> (msg, True)
           | Inl e \<Rightarrow> (JStr (''Mistral API Error: '' @ str_exn (message_of w) e), False)))"

section \<open>The question endpoint\<close>

text \<open>
  Of the Flask request the handler reads \<^verbatim>\<open>request.is_json\<close> and \<^verbatim>\<open>request.get_json()\<close>,
  which returns the decoded body or raises (a body that is not JSON raises
  \<^verbatim>\<open>BadRequest\<close>). A response is the dictionary given to \<^verbatim>\<open>jsonify\<close> and the status code.
\<close>

record request =
  is_json :: bool
  get_json :: "json result"

type_synonym response = "json \<times> nat"

definition truncate_real :: "real \<Rightarrow> int" where
  "truncate_real r = (if r < 0 then \<lceil>r\<rceil> else \<lfloor>r\<rfloor>)"

definition int_space :: "char \<Rightarrow> bool" where
  \<comment> \<open>the white space \<^verbatim>\<open>int()\<close> skips around a literal\<close>
  "int_space c =
     (let n = code_point c in (9 \<le> n \<and> n \<le> 13) \<or> n = 32 \<or> n = 133 \<or> n = 160)"

fun digits_ok :: "string \<Rightarrow> bool" where
  \<comment> \<open>digits, with single underscores between digits only\<close>
  "digits_ok [] = False"
| "digits_ok [c] = isdecimal c"
| "digits_ok (c # d # cs) =
     (isdecimal c \<and> (if d = CHR ''_'' then digits_ok cs else digits_ok (d # cs)))"

definition digit_value :: "char \<Rightarrow> int" where
  "digit_value c = int (code_point c) - 48"

definition decimal :: "string \<Rightarrow> int" where
  "decimal ds = foldl (\<lambda>n c. 10 * n + digit_value c) 0 ds"

definition int_max_str_digits :: nat where
  \<comment> \<open>\<^verbatim>\<open>sys.int_info.default_max_str_digits\<close>\<close>
  "int_max_str_digits = 4300"

definition int_of_str :: "string \<Rightarrow> int result" where
  "int_of_str s =
     (let t = rev (dropWhile int_space (rev (dropWhile int_space s)));
          negative = (t \<noteq> [] \<and> hd t = CHR ''-'');
          body = (if t \<noteq> [] \<and> (hd t = CHR ''-'' \<or> hd t = CHR ''+'') then tl t else t);
          ds = filter isdecimal body
      in if digits_ok body \<and> length ds \<le> int_max_str_digits
         then Inr (if negative then - decimal ds else decimal ds)
         else Inl ValueError)"

definition py_int :: "json \<Rightarrow> int result" where
  \<comment> \<open>\<^verbatim>\<open>int(v)\<close>\<close>
  "py_int v =
     (case v of
        JInt n \<Rightarrow> Inr n
      | JBool b \<Rightarrow> Inr (if b then 1 else 0)
      | JFloat x \<Rightarrow>
          (case x of
             Finite r \<Rightarrow> Inr (truncate_real r)
           | NaN \<Rightarrow> Inl ValueError
           | _ \<Rightarrow> Inl OverflowError)
      | JStr s \<Rightarrow> int_of_str s
      | _ \<Rightarrow> Inl TypeError)"

definition format_slice :: "world \<Rightarrow> json \<Rightarrow> nat \<Rightarrow> string result" where
  \<comment> \<open>\<^verbatim>\<open>f"{v[:n]}"\<close>; what is neither a string nor a list cannot be sliced (for a
      dictionary the exception is a \<^verbatim>\<open>KeyError\<close> from Python 3.12 on)\<close>
  "format_slice w v n =
     (case v of
        JStr s \<Rightarrow> Inr (take n s)
      | JList xs \<Rightarrow> Inr (str_of_list w (take n xs))
      | _ \<Rightarrow> Inl TypeError)"

fun first_missing :: "string list \<Rightarrow> json \<Rightarrow> string option result" where
  \<comment> \<open>\<^verbatim>\<open>for keys in required_keys: if keys not in data: return ...\<close>\<close>
  "first_missing [] data = Inr None"
| "first_missing (k # ks) data =
     and_then (py_in k data) (\<lambda>present.
       if \<not> present then Inr (Some k) else first_missing ks data)"

definition ANSWER_INSTRUCTIONS :: string where
  "ANSWER_INSTRUCTIONS =
     ''Answer the question of the user based off the summary. Use the summary as the context. List out the main points in list form which must be bullet list form. The answer MUST STAY ONLY ACCORDING TO THE QUESTION GIVEN AND NOTHING ELSE. If the user asks questions outside the context provided, response by saying: I cannot answer this question as it is out of context. \<newline>\<newline>''"

definition answer_prompt :: "world \<Rightarrow> json \<Rightarrow> json \<Rightarrow> string result" where
  \<comment> \<open>\<^verbatim>\<open>prompt\<close> of \<^verbatim>\<open>ask\<close>\<close>
  "answer_prompt w summary question =
     and_then (format_slice w summary 2500) (\<lambda>summary_part.
     and_then (format_slice w question 500) (\<lambda>question_part.
       Inr (ANSWER_INSTRUCTIONS
              @ ''Summary: '' @ summary_part @ ''\<newline>'' @ ''Question: '' @ question_part)))"

definition max_limit_response :: response where
  "max_limit_response =
     (JObj [(''success'', JBool False), (''error'', JStr ''Max prompt limit reached'')], 400)"

definition ask_body :: "world \<Rightarrow> request \<Rightarrow> response result" where
  \<comment> \<open>the body of the \<^verbatim>\<open>try\<close>\<close>
  "ask_body w request =
     (if \<not> is_json request then
        Inr (JObj [(''verification'', JBool False), (''error'', JStr ''JSON not available.'')], 400)
      else
        and_then (get_json request) (\<lambda>data.
          if data = JNull then
            Inr (JObj [(''verification'', JBool False), (''error'', JStr ''Request failed.'')], 400)
          else
            and_then (first_missing [''question'', ''prompt_count'', ''summary''] data) (\<lambda>missing.
              case missing of
                Some k \<Rightarrow> Inr (JObj [(''error'', JStr (k @ '' is required.''))], 400)
              | None \<Rightarrow>
                  and_then (getitem data ''question'') (\<lambda>question.
                  and_then (getitem data ''prompt_count'') (\<lambda>_.
                  and_then (getitem data ''summary'') (\<lambda>summary.
                  and_then (get_default data ''prompt_count'' (JInt 0)) (\<lambda>count_value.
                  and_then (py_int count_value) (\<lambda>prompt_count.
                    if prompt_count \<ge> 8 then Inr max_limit_response
                    else
                      case mistral_client w of
                        None \<Rightarrow>
                          Inr (JObj [(''success'', JBool False),
                                     (''error'', JStr ''Mistral API Key or client initialization failed.'')],
                               500)
                      | Some chat \<Rightarrow>
                          and_then (answer_prompt w summary question) (\<lambda>prompt.
                          and_then (chat prompt) (\<lambda>answer.
                            Inr (JObj [(''success'', JBool True),
                                       (''answer'', answer),
                                       (''prompt_count'', JInt (prompt_count + 1))],
                                 200)))))))))))"

definition ask :: "world \<Rightarrow> request \<Rightarrow> response" where
  "ask w request =
     (case ask_body w request of
        Inr response \<Rightarrow> response
      | Inl e \<Rightarrow>
          (JObj [(''verification'', JBool False),
                 (''error'', JStr (''Internal server error '' @ str_exn (message_of w) e))],
           500))"

definition response_field :: "response \<Rightarrow> string \<Rightarrow> json option" where
  \<comment> \<open>the value a response's dictionary holds under a key, if any\<close>
  "response_field r k = (case fst r of JObj kvs \<Rightarrow> map_of kvs k | _ \<Rightarrow> None)"

definition internal_error_response :: "world \<Rightarrow> exn \<Rightarrow> response" where
  \<comment> \<open>what the \<^verbatim>\<open>except\<close> clause of \<^verbatim>\<open>ask\<close> returns\<close>
  "internal_error_response w e =
     (JObj [(''verification'', JBool False),
            (''error'', JStr (''Internal server error '' @ str_exn (message_of w) e))],
      500)"

section \<open>The specification's view of the provider's documents\<close>

text \<open>
  The definitions of this section are not translations of code: they say, in the words
  of the specification, what the claims about the caption fetcher talk about. The
  theorems below compare them with the functions translated from \<^verbatim>\<open>app.py\<close>.

  A caption document is a JSON object with an \<^verbatim>\<open>events\<close> array; each event optionally
  has a \<^verbatim>\<open>segs\<close> array; each segment optionally has a \<^verbatim>\<open>utf8\<close> text field.
\<close>

definition well_formed_segment :: "json \<Rightarrow> bool" where
  "well_formed_segment seg =
     (case seg of
        JObj kvs \<Rightarrow> (case map_of kvs ''utf8'' of None \<Rightarrow> True | Some v \<Rightarrow> (case v of JStr t \<Rightarrow> True | _ \<Rightarrow> False))
      | _ \<Rightarrow> False)"

definition well_formed_event :: "json \<Rightarrow> bool" where
  "well_formed_event event =
     (case event of
        JObj kvs \<Rightarrow>
          (case map_of kvs ''segs'' of
             None \<Rightarrow> True
           | Some v \<Rightarrow> (case v of JList segs \<Rightarrow> list_all well_formed_segment segs | _ \<Rightarrow> False))
      | _ \<Rightarrow> False)"

definition well_formed_document :: "json \<Rightarrow> bool" where
  "well_formed_document document =
     (case document of
        JObj kvs \<Rightarrow>
          (case map_of kvs ''events'' of
             None \<Rightarrow> True
           | Some v \<Rightarrow> (case v of JList events \<Rightarrow> list_all well_formed_event events | _ \<Rightarrow> False))
      | _ \<Rightarrow> False)"

definition segment_texts :: "json \<Rightarrow> string list" where
  \<comment> \<open>the text of a segment that carries a text field\<close>
  "segment_texts seg =
     (case seg of
        JObj kvs \<Rightarrow> (case map_of kvs ''utf8'' of Some (JStr t) \<Rightarrow> [t] | _ \<Rightarrow> [])
      | _ \<Rightarrow> [])"

definition event_texts :: "json \<Rightarrow> string list" where
  \<comment> \<open>the texts of the segments of an event that has segments, in order\<close>
  "event_texts event =
     (case event of
        JObj kvs \<Rightarrow>
          (case map_of kvs ''segs'' of Some (JList segs) \<Rightarrow> concat (map segment_texts segs) | _ \<Rightarrow> [])
      | _ \<Rightarrow> [])"

definition document_texts :: "json \<Rightarrow> string list" where
  \<comment> \<open>the texts of all events, in order\<close>
  "document_texts document =
     (case document of
        JObj kvs \<Rightarrow>
          (case map_of kvs ''events'' of
             Some (JList events) \<Rightarrow> concat (map event_texts events)
           | _ \<Rightarrow> [])
      | _ \<Rightarrow> [])"

definition delivery_url :: "json \<Rightarrow> json result" where
  \<comment> \<open>the delivery URL of a chosen language's track list: that of its first entry;
      the fetch fails when it is absent\<close>
  "delivery_url tracks =
     and_then (getitem0 tracks) (\<lambda>track.
     and_then (getitem track ''url'') (\<lambda>url.
       if truthy url then Inr url else Inl (Exception ''Could not find subtitle URL'')))"

definition no_collection :: "(string \<times> json) list \<Rightarrow> string \<Rightarrow> bool" where
  \<comment> \<open>the metadata has no caption collection of that name, or an empty one\<close>
  "no_collection kvs name =
     (map_of kvs name = None \<or> map_of kvs name = Some JNull \<or> map_of kvs name = Some (JObj []))"

section \<open>Fixtures\<close>

text \<open>
  A world whose provider returns a given metadata record and caption document, and
  whose model echoes the prompt; and the request that carries a given JSON body.
\<close>

definition fixture_world :: "json \<Rightarrow> json \<Rightarrow> world" where
  "fixture_world info document =
     \<lparr>YT_DLP_AVAILABLE = True,
      extract_info = (\<lambda>url. Inr info),
      urlopen = (\<lambda>subtitle_url. Inr ''payload''),
      json_loads = (\<lambda>subtitle_data. Inr document),
      mistral_client = Some (\<lambda>prompt. Inr (JStr prompt)),
      message_of = (\<lambda>e. ''error''),
      str_of_list = (\<lambda>xs. ''[]'')\<rparr>"

definition json_request :: "json \<Rightarrow> request" where
  "json_request data = \<lparr>is_json = True, get_json = Inr data\<rparr>"

definition turn :: "json \<Rightarrow> json" where
  \<comment> \<open>a well-formed body of \<^verbatim>\<open>POST /ask\<close> with the given \<^verbatim>\<open>prompt_count\<close>\<close>
  "turn count_value =
     JObj [(''question'', JStr ''why''), (''prompt_count'', count_value), (''summary'', JStr ''text'')]"

definition track :: "string \<Rightarrow> json" where
  "track url = JObj [(''ext'', JStr ''json3''), (''url'', JStr url)]"

definition both_info :: json where
  \<comment> \<open>manual captions in French and English, automatic captions in English\<close>
  "both_info =
     JObj [(''id'', JStr ''abc123''),
           (''subtitles'',
              JObj [(''fr'', JList [track ''manual-fr'']), (''en'', JList [track ''manual-en''])]),
           (''automatic_captions'', JObj [(''en'', JList [track ''auto-en''])])]"

definition foreign_info :: json where
  \<comment> \<open>manual captions in French and German, automatic captions in English\<close>
  "foreign_info =
     JObj [(''id'', JStr ''abc123''),
           (''subtitles'',
              JObj [(''fr'', JList [track ''manual-fr'']), (''de'', JList [track ''manual-de''])]),
           (''automatic_captions'', JObj [(''en'', JList [track ''auto-en''])])]"

definition automatic_info :: "string \<Rightarrow> json" where
  \<comment> \<open>no manual captions, automatic captions in one language\<close>
  "automatic_info lang =
     JObj [(''id'', JStr ''abc123''),
           (''subtitles'', JObj []),
           (''automatic_captions'', JObj [(lang, JList [track ''auto''])])]"

definition caption_document :: "string list \<Rightarrow> json" where
  \<comment> \<open>a caption document with one event per text, each of one segment\<close>
  "caption_document texts =
     JObj [(''events'',
              JList (map (\<lambda>t. JObj [(''segs'', JList [JObj [(''utf8'', JStr t)]])]) texts))]"

section \<open>Helper lemmas\<close>

lemma and_then_Inl [simp]: "and_then (Inl e) f = Inl e"
  by (simp add: and_then_def)

lemma and_then_Inr [simp]: "and_then (Inr x) f = f x"
  by (simp add: and_then_def)

lemma py_in_JObj [simp]: "py_in k (JObj kvs) = Inr (k \<in> fst ` set kvs)"
  by (simp add: py_in_def)

lemma getitem_JObj_Some: "map_of kvs k = Some v \<Longrightarrow> getitem (JObj kvs) k = Inr v"
  by (simp add: getitem_def)

lemma get_default_JObj_Some: "map_of kvs k = Some v \<Longrightarrow> get_default (JObj kvs) k d = Inr v"
  by (simp add: get_default_def)

lemma map_of_Some_key: "map_of kvs k = Some v \<Longrightarrow> k \<in> fst ` set kvs"
  by (metis domI dom_map_of_conv_image_fst)

lemma ask_body_valid:
  assumes "is_json request" and "get_json request = Inr (JObj kvs)"
    and "map_of kvs ''question'' = Some question"
    and "map_of kvs ''prompt_count'' = Some count_value"
    and "map_of kvs ''summary'' = Some summary"
  shows "ask_body w request =
     and_then (py_int count_value) (\<lambda>prompt_count.
       if prompt_count \<ge> 8 then Inr max_limit_response
       else
         case mistral_client w of
           None \<Rightarrow>
             Inr (JObj [(''success'', JBool False),
                        (''error'', JStr ''Mistral API Key or client initialization failed.'')],
                  500)
         | Some chat \<Rightarrow>
             and_then (answer_prompt w summary question) (\<lambda>prompt.
             and_then (chat prompt) (\<lambda>answer.
               Inr (JObj [(''success'', JBool True),
                          (''answer'', answer),
                          (''prompt_count'', JInt (prompt_count + 1))],
                    200))))"
  using assms
  by (simp add: ask_body_def getitem_JObj_Some get_default_JObj_Some map_of_Some_key)

lemma ask_rejects:
  assumes "is_json request" and "get_json request = Inr (JObj kvs)"
    and "map_of kvs ''question'' = Some question"
    and "map_of kvs ''prompt_count'' = Some count_value"
    and "map_of kvs ''summary'' = Some summary"
    and "py_int count_value = Inr n" and "8 \<le> n"
  shows "ask w request = max_limit_response"
  using assms(6,7) by (simp add: ask_def ask_body_valid [OF assms(1-5)])

lemma ask_admits:
  assumes "is_json request" and "get_json request = Inr (JObj kvs)"
    and "map_of kvs ''question'' = Some question"
    and "map_of kvs ''prompt_count'' = Some count_value"
    and "map_of kvs ''summary'' = Some summary"
    and "py_int count_value = Inr n" and "n < 8"
  shows "snd (ask w request) \<noteq> 400"
  using assms(6,7)
  by (simp add: ask_def ask_body_valid [OF assms(1-5)] and_then_def
      split: option.split sum.split)

lemma ask_succeeds:
  assumes "is_json request" and "get_json request = Inr (JObj kvs)"
    and "map_of kvs ''question'' = Some question"
    and "map_of kvs ''prompt_count'' = Some count_value"
    and "map_of kvs ''summary'' = Some summary"
    and "py_int count_value = Inr n" and "n < 8"
    and "mistral_client w = Some chat"
    and "answer_prompt w summary question = Inr prompt"
    and "chat prompt = Inr answer"
  shows "ask w request =
           (JObj [(''success'', JBool True), (''answer'', answer), (''prompt_count'', JInt (n + 1))],
            200)"
  using assms(6-10) by (simp add: ask_def ask_body_valid [OF assms(1-5)])

lemma ask_conversion_fails:
  assumes "is_json request" and "get_json request = Inr (JObj kvs)"
    and "map_of kvs ''question'' = Some question"
    and "map_of kvs ''prompt_count'' = Some count_value"
    and "map_of kvs ''summary'' = Some summary"
    and "py_int count_value = Inl e"
  shows "ask w request = internal_error_response w e"
  using assms(6) by (simp add: ask_def ask_body_valid [OF assms(1-5)] internal_error_response_def)

lemma py_int_JInt [simp]: "py_int (JInt n) = Inr n"
  by (simp add: py_int_def)

lemma json_request_simps [simp]:
  "is_json (json_request data)" "get_json (json_request data) = Inr data"
  by (simp_all add: json_request_def)

lemma max_limit_no_count: "response_field max_limit_response ''prompt_count'' = None"
  by (simp add: response_field_def max_limit_response_def)

lemma fixture_world_simps [simp]:
  "YT_DLP_AVAILABLE (fixture_world info document)"
  "extract_info (fixture_world info document) url = Inr info"
  "urlopen (fixture_world info document) u = Inr ''payload''"
  "json_loads (fixture_world info document) d = Inr document"
  "mistral_client (fixture_world info document) = Some (\<lambda>prompt. Inr (JStr prompt))"
  "message_of (fixture_world info document) e = ''error''"
  by (simp_all add: fixture_world_def)

lemma format_slice_JStr [simp]: "format_slice w (JStr s) n = Inr (take n s)"
  by (simp add: format_slice_def)

section \<open>The turn limit\<close>

text \<open>
  Claim C5. For a well-formed body of \<^verbatim>\<open>POST /ask\<close> whose \<^verbatim>\<open>prompt_count\<close> is the integer
  \<open>n\<close>: when \<open>0 \<le> n \<le> 7\<close> the handler does not answer with the max-limit rejection (nor
  with any status 400); when \<open>8 \<le> n\<close> it answers with the max-limit rejection, a response
  that holds no \<^verbatim>\<open>prompt_count\<close>, so no incremented counter; and a turn that is admitted
  and succeeds (the client exists, the prompt is built, the model answers) returns
  status 200 with \<^verbatim>\<open>prompt_count\<close> equal to \<open>n + 1\<close>.
\<close>

theorem turn_limit_gate:
  assumes "is_json request" and "get_json request = Inr (JObj kvs)"
    and "map_of kvs ''question'' = Some question"
    and "map_of kvs ''prompt_count'' = Some (JInt n)"
    and "map_of kvs ''summary'' = Some summary"
  shows "(0 \<le> n \<and> n \<le> 7 \<longrightarrow>
            ask w request \<noteq> max_limit_response \<and> snd (ask w request) \<noteq> 400)
       \<and> (8 \<le> n \<longrightarrow>
            ask w request = max_limit_response
            \<and> response_field (ask w request) ''prompt_count'' = None)
       \<and> (0 \<le> n \<and> n \<le> 7 \<and> mistral_client w = Some chat
            \<and> answer_prompt w summary question = Inr prompt
            \<and> chat prompt = Inr answer \<longrightarrow>
            ask w request =
              (JObj [(''success'', JBool True), (''answer'', answer),
                     (''prompt_count'', JInt (n + 1))], 200))"
proof (intro conjI impI)
  assume n: "0 \<le> n \<and> n \<le> 7"
  then show "snd (ask w request) \<noteq> 400"
    using ask_admits [OF assms, of n w] by simp
  then show "ask w request \<noteq> max_limit_response"
    by (auto simp: max_limit_response_def)
next
  assume "8 \<le> n"
  then show "ask w request = max_limit_response"
    using ask_rejects [OF assms, of n w] by simp
  then show "response_field (ask w request) ''prompt_count'' = None"
    by (simp add: max_limit_no_count)
next
  assume "0 \<le> n \<and> n \<le> 7 \<and> mistral_client w = Some chat
            \<and> answer_prompt w summary question = Inr prompt
            \<and> chat prompt = Inr answer"
  then show "ask w request =
              (JObj [(''success'', JBool True), (''answer'', answer),
                     (''prompt_count'', JInt (n + 1))], 200)"
    using ask_succeeds [OF assms, of n w chat prompt answer] by simp
qed


theorem turn_limit_gate_witness:
  "ask (fixture_world JNull JNull) (json_request (turn (JInt 7))) =
     (JObj [(''success'', JBool True), (''answer'', JStr (ANSWER_INSTRUCTIONS @ ''Summary: text\<newline>Question: why'')),
            (''prompt_count'', JInt 8)], 200)
   \<and> ask (fixture_world JNull JNull) (json_request (turn (JInt 8))) = max_limit_response
   \<and> response_field (ask (fixture_world JNull JNull) (json_request (turn (JInt 8))))
        ''prompt_count'' = None"
  using
    turn_limit_gate [where request = "json_request (turn (JInt 7))" and n = 7
      and kvs = "[(''question'', JStr ''why''), (''prompt_count'', JInt 7), (''summary'', JStr ''text'')]"
      and question = "JStr ''why''" and summary = "JStr ''text''"
      and w = "fixture_world JNull JNull" and chat = "\<lambda>prompt. Inr (JStr prompt)"
      and prompt = "ANSWER_INSTRUCTIONS @ ''Summary: text\<newline>Question: why''"
      and answer = "JStr (ANSWER_INSTRUCTIONS @ ''Summary: text\<newline>Question: why'')"]
    turn_limit_gate [where request = "json_request (turn (JInt 8))" and n = 8
      and kvs = "[(''question'', JStr ''why''), (''prompt_count'', JInt 8), (''summary'', JStr ''text'')]"
      and question = "JStr ''why''" and summary = "JStr ''text''"
      and w = "fixture_world JNull JNull"]
  by (simp add: turn_def max_limit_no_count answer_prompt_def)

text \<open>
  Claim C10. The turn limit has no lower bound: every integer \<^verbatim>\<open>prompt_count\<close> below 8,
  negative ones included, passes the check, and a successful turn returns that value
  plus one.
\<close>

theorem no_lower_bound:
  assumes "is_json request" and "get_json request = Inr (JObj kvs)"
    and "map_of kvs ''question'' = Some question"
    and "map_of kvs ''prompt_count'' = Some (JInt n)"
    and "map_of kvs ''summary'' = Some summary"
    and "n < 8"
  shows "ask w request \<noteq> max_limit_response
       \<and> (mistral_client w = Some chat
            \<and> answer_prompt w summary question = Inr prompt
            \<and> chat prompt = Inr answer \<longrightarrow>
            ask w request =
              (JObj [(''success'', JBool True), (''answer'', answer),
                     (''prompt_count'', JInt (n + 1))], 200))"
proof (intro conjI impI)
  have "snd (ask w request) \<noteq> 400"
    using ask_admits [OF assms(1-5), of n w] assms(6) by simp
  then show "ask w request \<noteq> max_limit_response"
    by (auto simp: max_limit_response_def)
next
  assume "mistral_client w = Some chat
            \<and> answer_prompt w summary question = Inr prompt
            \<and> chat prompt = Inr answer"
  then show "ask w request =
              (JObj [(''success'', JBool True), (''answer'', answer),
                     (''prompt_count'', JInt (n + 1))], 200)"
    using ask_succeeds [OF assms(1-5), of n w chat prompt answer] assms(6)
    by simp
qed

theorem no_lower_bound_witness:
  "ask (fixture_world JNull JNull) (json_request (turn (JInt (- 1000)))) =
     (JObj [(''success'', JBool True), (''answer'', JStr (ANSWER_INSTRUCTIONS @ ''Summary: text\<newline>Question: why'')),
            (''prompt_count'', JInt (- 999))], 200)"
  using
    no_lower_bound [where request = "json_request (turn (JInt (- 1000)))" and n = "- 1000"
      and kvs = "[(''question'', JStr ''why''), (''prompt_count'', JInt (- 1000)), (''summary'', JStr ''text'')]"
      and question = "JStr ''why''" and summary = "JStr ''text''"
      and w = "fixture_world JNull JNull" and chat = "\<lambda>prompt. Inr (JStr prompt)"
      and prompt = "ANSWER_INSTRUCTIONS @ ''Summary: text\<newline>Question: why''"
      and answer = "JStr (ANSWER_INSTRUCTIONS @ ''Summary: text\<newline>Question: why'')"]
  by (simp add: turn_def answer_prompt_def)

text \<open>
  Claim C7, as amended. A well-formed body of \<^verbatim>\<open>POST /ask\<close> with \<^verbatim>\<open>prompt_count\<close> equal to 8
  yields status 400 with the dictionary
  \<^verbatim>\<open>{"success": False, "error": "Max prompt limit reached"}\<close>; that response has no
  \<^verbatim>\<open>prompt_count\<close> entry at all, so it returns neither the value 8 nor an incremented one.
\<close>

theorem limit_response_has_no_count:
  assumes "is_json request" and "get_json request = Inr (JObj kvs)"
    and "map_of kvs ''question'' = Some question"
    and "map_of kvs ''prompt_count'' = Some (JInt 8)"
    and "map_of kvs ''summary'' = Some summary"
  shows "ask w request =
           (JObj [(''success'', JBool False), (''error'', JStr ''Max prompt limit reached'')], 400)
       \<and> response_field (ask w request) ''prompt_count'' = None"
  using ask_rejects [OF assms, of 8 w]
  by (simp add: max_limit_response_def response_field_def)

theorem limit_response_has_no_count_witness:
  "ask (fixture_world JNull JNull) (json_request (turn (JInt 8))) =
     (JObj [(''success'', JBool False), (''error'', JStr ''Max prompt limit reached'')], 400)"
  using
    limit_response_has_no_count [where request = "json_request (turn (JInt 8))"
      and kvs = "[(''question'', JStr ''why''), (''prompt_count'', JInt 8), (''summary'', JStr ''text'')]"
      and question = "JStr ''why''" and summary = "JStr ''text''"
      and w = "fixture_world JNull JNull"]
  by (simp add: turn_def)

text \<open>
  Claim C7 as stated asks for the value 8 under \<^verbatim>\<open>prompt_count\<close> in the rejection; the
  response of the handler to such a request holds no such entry.
\<close>

theorem limit_response_echoes_count_counterexample:
  "response_field (ask (fixture_world JNull JNull) (json_request (turn (JInt 8)))) ''prompt_count''
     \<noteq> Some (JInt 8)"
  by (simp add: turn_def ask_def ask_body_def getitem_def get_default_def
      max_limit_response_def response_field_def)

section \<open>Conversion of the counter\<close>

lemma isdecimal_not_int_space: "isdecimal c \<Longrightarrow> \<not> int_space c"
  by (auto simp: isdecimal_def int_space_def Let_def)

lemma isdecimal_not_sign: "isdecimal c \<Longrightarrow> c \<noteq> CHR ''-'' \<and> c \<noteq> CHR ''+'' \<and> c \<noteq> CHR ''_''"
  by (auto simp: isdecimal_def code_point_def Let_def)

lemma digits_ok_all_decimal: "s \<noteq> [] \<Longrightarrow> list_all isdecimal s \<Longrightarrow> digits_ok s"
  by (induction s rule: digits_ok.induct) (auto simp: isdecimal_not_sign)

lemma dropWhile_hd: "xs \<noteq> [] \<Longrightarrow> \<not> P (hd xs) \<Longrightarrow> dropWhile P xs = xs"
  by (cases xs) simp_all

lemma dropWhile_int_space_decimal:
  assumes "s \<noteq> []" and "list_all isdecimal s"
  shows "rev (dropWhile int_space (rev (dropWhile int_space s))) = s"
proof -
  have "\<not> int_space (hd s)" "\<not> int_space (last s)"
    using assms by (auto simp: list_all_iff isdecimal_not_int_space)
  then have "dropWhile int_space s = s" "dropWhile int_space (rev s) = rev s"
    using assms(1) by (simp_all add: dropWhile_hd hd_rev)
  then show ?thesis by simp
qed

lemma int_of_str_digits:
  assumes "s \<noteq> []" and "list_all isdecimal s" and "length s \<le> int_max_str_digits"
  shows "int_of_str s = Inr (decimal s)"
proof -
  have t: "rev (dropWhile int_space (rev (dropWhile int_space s))) = s"
    using assms by (simp add: dropWhile_int_space_decimal)
  have h: "hd s \<noteq> CHR ''-''" "hd s \<noteq> CHR ''+''"
    using assms by (cases s; simp add: isdecimal_not_sign)+
  have f: "filter isdecimal s = s"
    using assms(2) by (simp add: list_all_iff)
  show ?thesis
    using assms h f by (simp add: int_of_str_def t Let_def digits_ok_all_decimal)
qed


lemma py_int_examples:
  "py_int (JStr ''five'') = Inl ValueError" "py_int JNull = Inl TypeError"
  "py_int (JStr ''7'') = Inr 7"
  by (simp_all add: py_int_def int_of_str_def int_space_def code_point_def isdecimal_def
      decimal_def digit_value_def int_max_str_digits_def)

text \<open>
  Claim C9. A \<^verbatim>\<open>prompt_count\<close> that is present but that \<^verbatim>\<open>int()\<close> cannot convert is not
  answered with a 400: the conversion raises inside the \<^verbatim>\<open>try\<close>, and the response is
  status 500 with the dictionary \<^verbatim>\<open>{"verification": False, "error": ...}\<close>. The string
  \<^verbatim>\<open>"five"\<close> and \<^verbatim>\<open>None\<close> are such values. A string of decimal digits (within the
  interpreter's digit limit) converts to the number it writes, \<^verbatim>\<open>"7"\<close> to 7, and whatever
  value converts to \<open>n\<close> is then treated as \<open>n\<close>: rejected when \<open>8 \<le> n\<close>, and answered
  with \<open>n + 1\<close> on a successful turn when \<open>n < 8\<close>.
\<close>

theorem unconvertible_prompt_count:
  assumes "is_json request" and "get_json request = Inr (JObj kvs)"
    and "map_of kvs ''question'' = Some question"
    and "map_of kvs ''prompt_count'' = Some count_value"
    and "map_of kvs ''summary'' = Some summary"
  shows "(py_int count_value = Inl e \<longrightarrow>
            ask w request =
              (JObj [(''verification'', JBool False),
                     (''error'', JStr (''Internal server error '' @ str_exn (message_of w) e))],
               500))
       \<and> py_int (JStr ''five'') = Inl ValueError
       \<and> py_int JNull = Inl TypeError
       \<and> py_int (JStr ''7'') = Inr 7
       \<and> (s \<noteq> [] \<and> list_all isdecimal s \<and> length s \<le> int_max_str_digits \<longrightarrow>
            py_int (JStr s) = Inr (decimal s))
       \<and> (py_int count_value = Inr n \<and> 8 \<le> n \<longrightarrow> ask w request = max_limit_response)
       \<and> (py_int count_value = Inr n \<and> n < 8 \<and> mistral_client w = Some chat
            \<and> answer_prompt w summary question = Inr prompt
            \<and> chat prompt = Inr answer \<longrightarrow>
            ask w request =
              (JObj [(''success'', JBool True), (''answer'', answer),
                     (''prompt_count'', JInt (n + 1))], 200))"
proof (intro conjI impI)
  assume "py_int count_value = Inl e"
  then show "ask w request =
              (JObj [(''verification'', JBool False),
                     (''error'', JStr (''Internal server error '' @ str_exn (message_of w) e))],
               500)"
    using ask_conversion_fails [OF assms, of e w] by (simp add: internal_error_response_def)
next
  assume "s \<noteq> [] \<and> list_all isdecimal s \<and> length s \<le> int_max_str_digits"
  then show "py_int (JStr s) = Inr (decimal s)"
    by (simp add: py_int_def int_of_str_digits)
next
  assume "py_int count_value = Inr n \<and> 8 \<le> n"
  then show "ask w request = max_limit_response"
    using ask_rejects [OF assms, of n w] by simp
next
  assume "py_int count_value = Inr n \<and> n < 8 \<and> mistral_client w = Some chat
            \<and> answer_prompt w summary question = Inr prompt
            \<and> chat prompt = Inr answer"
  then show "ask w request =
              (JObj [(''success'', JBool True), (''answer'', answer),
                     (''prompt_count'', JInt (n + 1))], 200)"
    using ask_succeeds [OF assms, of n w chat prompt answer] by simp
qed (simp_all add: py_int_examples)

lemma turn_fields:
  "map_of [(''question'', JStr ''why''), (''prompt_count'', v), (''summary'', JStr ''text'')]
     ''question'' = Some (JStr ''why'')"
  "map_of [(''question'', JStr ''why''), (''prompt_count'', v), (''summary'', JStr ''text'')]
     ''prompt_count'' = Some v"
  "map_of [(''question'', JStr ''why''), (''prompt_count'', v), (''summary'', JStr ''text'')]
     ''summary'' = Some (JStr ''text'')"
  by simp_all

lemma turn_request:
  "is_json (json_request (turn v))"
  "get_json (json_request (turn v)) =
     Inr (JObj [(''question'', JStr ''why''), (''prompt_count'', v), (''summary'', JStr ''text'')])"
  by (simp_all add: turn_def)

lemma turn_prompt:
  "answer_prompt w (JStr ''text'') (JStr ''why'') =
     Inr (ANSWER_INSTRUCTIONS @ ''Summary: text\<newline>Question: why'')"
  by (simp add: answer_prompt_def)

theorem unconvertible_prompt_count_witness:
  "ask (fixture_world JNull JNull) (json_request (turn (JStr ''five''))) =
     (JObj [(''verification'', JBool False), (''error'', JStr ''Internal server error error'')], 500)
   \<and> ask (fixture_world JNull JNull) (json_request (turn JNull)) =
     (JObj [(''verification'', JBool False), (''error'', JStr ''Internal server error error'')], 500)
   \<and> ask (fixture_world JNull JNull) (json_request (turn (JStr ''7''))) =
     (JObj [(''success'', JBool True),
            (''answer'', JStr (ANSWER_INSTRUCTIONS @ ''Summary: text\<newline>Question: why'')),
            (''prompt_count'', JInt 8)], 200)"
proof -
  let ?w = "fixture_world JNull JNull"
  note five = unconvertible_prompt_count [OF turn_request turn_fields, THEN conjunct1,
      of "JStr ''five''" ValueError ?w]
  note null = unconvertible_prompt_count [OF turn_request turn_fields, THEN conjunct1,
      of JNull TypeError ?w]
  note seven = unconvertible_prompt_count [OF turn_request turn_fields,
      THEN conjunct2, THEN conjunct2, THEN conjunct2, THEN conjunct2, THEN conjunct2,
      THEN conjunct2,
      of "JStr ''7''" 7 ?w "\<lambda>prompt. Inr (JStr prompt)"
         "ANSWER_INSTRUCTIONS @ ''Summary: text\<newline>Question: why''"
         "JStr (ANSWER_INSTRUCTIONS @ ''Summary: text\<newline>Question: why'')"]
  have "ask ?w (json_request (turn (JStr ''five''))) =
     (JObj [(''verification'', JBool False), (''error'', JStr ''Internal server error error'')], 500)"
    using five by (simp add: py_int_examples str_exn_def)
  moreover have "ask ?w (json_request (turn JNull)) =
     (JObj [(''verification'', JBool False), (''error'', JStr ''Internal server error error'')], 500)"
    using null by (simp add: py_int_examples str_exn_def)
  moreover have "ask ?w (json_request (turn (JStr ''7''))) =
     (JObj [(''success'', JBool True),
            (''answer'', JStr (ANSWER_INSTRUCTIONS @ ''Summary: text\<newline>Question: why'')),
            (''prompt_count'', JInt 8)], 200)"
    using seven by (simp add: py_int_examples turn_prompt)
  ultimately show ?thesis by simp
qed


section \<open>Error responses of the question endpoint\<close>

lemma first_missing_find:
  "first_missing ks (JObj kvs) = Inr (List.find (\<lambda>k. k \<notin> fst ` set kvs) ks)"
  by (induction ks) simp_all

text \<open>
  Claim C8. On a JSON request to \<^verbatim>\<open>/ask\<close>: a body that has \<^verbatim>\<open>question\<close> and \<^verbatim>\<open>prompt_count\<close>
  but no \<^verbatim>\<open>summary\<close> is answered with status 400 and exactly
  \<^verbatim>\<open>{"error": "summary is required."}\<close>; in general a missing required key is answered
  with status 400 and \<^verbatim>\<open>{"error": "<key> is required."}\<close> for the first key missing in the
  order question, prompt_count, summary. A body that fails to parse (\<^verbatim>\<open>get_json\<close>
  raises) and any exception raised inside the handler are answered with status 500 and
  \<^verbatim>\<open>{"verification": False, "error": "Internal server error ..."}\<close>. The two dictionaries
  are never equal.
\<close>

theorem ask_error_envelopes:
  assumes "is_json request"
  shows "(get_json request = Inr (JObj kvs) \<and> ''question'' \<in> fst ` set kvs
            \<and> ''prompt_count'' \<in> fst ` set kvs \<and> ''summary'' \<notin> fst ` set kvs \<longrightarrow>
            ask w request = (JObj [(''error'', JStr ''summary is required.'')], 400))
       \<and> (get_json request = Inr (JObj kvs)
            \<and> List.find (\<lambda>k. k \<notin> fst ` set kvs) [''question'', ''prompt_count'', ''summary'']
                = Some k \<longrightarrow>
            ask w request = (JObj [(''error'', JStr (k @ '' is required.''))], 400))
       \<and> (get_json request = Inr data \<and> data \<noteq> JNull
            \<and> first_missing [''question'', ''prompt_count'', ''summary''] data = Inr (Some k) \<longrightarrow>
            ask w request = (JObj [(''error'', JStr (k @ '' is required.''))], 400))
       \<and> (get_json request = Inl e \<longrightarrow>
            ask w request =
              (JObj [(''verification'', JBool False),
                     (''error'', JStr (''Internal server error '' @ str_exn (message_of w) e))],
               500))
       \<and> (ask_body w request = Inl e \<longrightarrow>
            ask w request =
              (JObj [(''verification'', JBool False),
                     (''error'', JStr (''Internal server error '' @ str_exn (message_of w) e))],
               500))
       \<and> JObj [(''error'', x)] \<noteq> JObj [(''verification'', JBool False), (''error'', y)]"
proof (intro conjI impI)
  assume "get_json request = Inr (JObj kvs) \<and> ''question'' \<in> fst ` set kvs
            \<and> ''prompt_count'' \<in> fst ` set kvs \<and> ''summary'' \<notin> fst ` set kvs"
  then show "ask w request = (JObj [(''error'', JStr ''summary is required.'')], 400)"
    using assms by (simp add: ask_def ask_body_def)
next
  assume "get_json request = Inr (JObj kvs)
            \<and> List.find (\<lambda>k. k \<notin> fst ` set kvs) [''question'', ''prompt_count'', ''summary'']
                = Some k"
  then show "ask w request = (JObj [(''error'', JStr (k @ '' is required.''))], 400)"
    using assms by (simp add: ask_def ask_body_def first_missing_find del: first_missing.simps find.simps)
next
  assume "get_json request = Inr data \<and> data \<noteq> JNull
            \<and> first_missing [''question'', ''prompt_count'', ''summary''] data = Inr (Some k)"
  then show "ask w request = (JObj [(''error'', JStr (k @ '' is required.''))], 400)"
    using assms by (simp add: ask_def ask_body_def del: first_missing.simps)
next
  assume "get_json request = Inl e"
  then show "ask w request =
              (JObj [(''verification'', JBool False),
                     (''error'', JStr (''Internal server error '' @ str_exn (message_of w) e))],
               500)"
    using assms by (simp add: ask_def ask_body_def)
next
  assume "ask_body w request = Inl e"
  then show "ask w request =
              (JObj [(''verification'', JBool False),
                     (''error'', JStr (''Internal server error '' @ str_exn (message_of w) e))],
               500)"
    by (simp add: ask_def)
qed simp

theorem ask_error_envelopes_witness:
  "ask (fixture_world JNull JNull)
       (json_request (JObj [(''question'', JStr ''why''), (''prompt_count'', JInt 1)])) =
     (JObj [(''error'', JStr ''summary is required.'')], 400)
   \<and> ask (fixture_world JNull JNull)
         \<lparr>is_json = True, get_json = Inl (Exception ''400 Bad Request'')\<rparr> =
     (JObj [(''verification'', JBool False),
            (''error'', JStr ''Internal server error 400 Bad Request'')], 500)"
proof -
  let ?w = "fixture_world JNull JNull"
  let ?r = "json_request (JObj [(''question'', JStr ''why''), (''prompt_count'', JInt 1)])"
  let ?bad = "\<lparr>is_json = True, get_json = Inl (Exception ''400 Bad Request'')\<rparr>"
  have "ask ?w ?r = (JObj [(''error'', JStr ''summary is required.'')], 400)"
    using ask_error_envelopes [where request = ?r and w = ?w
        and kvs = "[(''question'', JStr ''why''), (''prompt_count'', JInt 1)]", THEN conjunct1]
    by simp
  moreover have "ask ?w ?bad =
     (JObj [(''verification'', JBool False),
            (''error'', JStr ''Internal server error 400 Bad Request'')], 500)"
    using ask_error_envelopes [where request = ?bad and w = ?w
        and e = "Exception ''400 Bad Request''",
        THEN conjunct2, THEN conjunct2, THEN conjunct2, THEN conjunct1]
    by (simp add: str_exn_def)
  ultimately show ?thesis by simp
qed

section \<open>Prompts\<close>

lemma summarize_transcript_sends:
  "mistral_client w = Some chat \<Longrightarrow>
   summarize_transcript w transcript =
     (case chat (SUMMARY_INSTRUCTIONS @ take 10000 transcript) of
        Inr msg \<Rightarrow> (msg, True)
      | Inl e \<Rightarrow> (JStr (''Mistral API Error: '' @ str_exn (message_of w) e), False))"
  by (simp add: summarize_transcript_def summary_prompt_def)

lemma ask_sends:
  assumes "is_json request" and "get_json request = Inr (JObj kvs)"
    and "map_of kvs ''question'' = Some (JStr question)"
    and "map_of kvs ''prompt_count'' = Some count_value"
    and "map_of kvs ''summary'' = Some (JStr summary)"
    and "py_int count_value = Inr n" and "n < 8"
    and "mistral_client w = Some chat"
  shows "ask w request =
     (case chat (ANSWER_INSTRUCTIONS @ ''Summary: '' @ take 2500 summary @ ''\<newline>''
                   @ ''Question: '' @ take 500 question) of
        Inr answer \<Rightarrow>
          (JObj [(''success'', JBool True), (''answer'', answer),
                 (''prompt_count'', JInt (n + 1))], 200)
      | Inl e \<Rightarrow>
          (JObj [(''verification'', JBool False),
                 (''error'', JStr (''Internal server error '' @ str_exn (message_of w) e))],
           500))"
  using assms(6-8)
  by (simp add: ask_def ask_body_valid [OF assms(1-5)] answer_prompt_def and_then_def
      split: sum.split)

text \<open>
  Claim C4. The summarisation prompt is the fixed instructions followed by the first
  10000 characters of the transcript: a transcript of at most 10000 characters appears
  in full, and of a longer one nothing beyond the first 10000 characters appears; that
  prompt is what the model is sent. The answer prompt, for a summary and a question
  that are strings, is the fixed instructions followed by the first 2500 characters of
  the summary and the first 500 characters of the question, each labelled: inputs
  within the limits appear in full, nothing beyond the limits appears, and that prompt
  is what the model is sent on an admitted turn.
\<close>

theorem prompt_truncation:
  "summary_prompt transcript = SUMMARY_INSTRUCTIONS @ take 10000 transcript
   \<and> (length transcript \<le> 10000 \<longrightarrow>
        summary_prompt transcript = SUMMARY_INSTRUCTIONS @ transcript)
   \<and> (length kept = 10000 \<longrightarrow>
        summary_prompt (kept @ beyond) = SUMMARY_INSTRUCTIONS @ kept)
   \<and> (mistral_client w = Some chat \<longrightarrow>
        summarize_transcript w transcript =
          (case chat (SUMMARY_INSTRUCTIONS @ take 10000 transcript) of
             Inr msg \<Rightarrow> (msg, True)
           | Inl e \<Rightarrow> (JStr (''Mistral API Error: '' @ str_exn (message_of w) e), False)))
   \<and> answer_prompt w (JStr summary) (JStr question) =
        Inr (ANSWER_INSTRUCTIONS @ ''Summary: '' @ take 2500 summary @ ''\<newline>''
               @ ''Question: '' @ take 500 question)
   \<and> (length summary \<le> 2500 \<and> length question \<le> 500 \<longrightarrow>
        answer_prompt w (JStr summary) (JStr question) =
          Inr (ANSWER_INSTRUCTIONS @ ''Summary: '' @ summary @ ''\<newline>''
                 @ ''Question: '' @ question))
   \<and> (length summary_kept = 2500 \<and> length question_kept = 500 \<longrightarrow>
        answer_prompt w (JStr (summary_kept @ summary_beyond))
                        (JStr (question_kept @ question_beyond)) =
          Inr (ANSWER_INSTRUCTIONS @ ''Summary: '' @ summary_kept @ ''\<newline>''
                 @ ''Question: '' @ question_kept))
   \<and> (is_json request \<and> get_json request = Inr (JObj kvs)
        \<and> map_of kvs ''question'' = Some (JStr question)
        \<and> map_of kvs ''prompt_count'' = Some count_value
        \<and> map_of kvs ''summary'' = Some (JStr summary)
        \<and> py_int count_value = Inr n \<and> n < 8 \<and> mistral_client w = Some chat \<longrightarrow>
        ask w request =
          (case chat (ANSWER_INSTRUCTIONS @ ''Summary: '' @ take 2500 summary @ ''\<newline>''
                        @ ''Question: '' @ take 500 question) of
             Inr answer \<Rightarrow>
               (JObj [(''success'', JBool True), (''answer'', answer),
                      (''prompt_count'', JInt (n + 1))], 200)
           | Inl e \<Rightarrow>
               (JObj [(''verification'', JBool False),
                      (''error'', JStr (''Internal server error '' @ str_exn (message_of w) e))],
                500)))"
proof (intro conjI impI)
  show "summary_prompt transcript = SUMMARY_INSTRUCTIONS @ take 10000 transcript"
    by (simp add: summary_prompt_def)
next
  assume "length transcript \<le> 10000"
  then show "summary_prompt transcript = SUMMARY_INSTRUCTIONS @ transcript"
    by (simp add: summary_prompt_def)
next
  assume "length kept = 10000"
  then show "summary_prompt (kept @ beyond) = SUMMARY_INSTRUCTIONS @ kept"
    by (simp add: summary_prompt_def)
next
  assume "mistral_client w = Some chat"
  then show "summarize_transcript w transcript =
          (case chat (SUMMARY_INSTRUCTIONS @ take 10000 transcript) of
             Inr msg \<Rightarrow> (msg, True)
           | Inl e \<Rightarrow> (JStr (''Mistral API Error: '' @ str_exn (message_of w) e), False))"
    by (rule summarize_transcript_sends)
next
  show "answer_prompt w (JStr summary) (JStr question) =
        Inr (ANSWER_INSTRUCTIONS @ ''Summary: '' @ take 2500 summary @ ''\<newline>''
               @ ''Question: '' @ take 500 question)"
    by (simp add: answer_prompt_def)
next
  assume "length summary \<le> 2500 \<and> length question \<le> 500"
  then show "answer_prompt w (JStr summary) (JStr question) =
          Inr (ANSWER_INSTRUCTIONS @ ''Summary: '' @ summary @ ''\<newline>''
                 @ ''Question: '' @ question)"
    by (simp add: answer_prompt_def)
next
  assume "length summary_kept = 2500 \<and> length question_kept = 500"
  then show "answer_prompt w (JStr (summary_kept @ summary_beyond))
                        (JStr (question_kept @ question_beyond)) =
          Inr (ANSWER_INSTRUCTIONS @ ''Summary: '' @ summary_kept @ ''\<newline>''
                 @ ''Question: '' @ question_kept)"
    by (simp add: answer_prompt_def)
next
  assume "is_json request \<and> get_json request = Inr (JObj kvs)
        \<and> map_of kvs ''question'' = Some (JStr question)
        \<and> map_of kvs ''prompt_count'' = Some count_value
        \<and> map_of kvs ''summary'' = Some (JStr summary)
        \<and> py_int count_value = Inr n \<and> n < 8 \<and> mistral_client w = Some chat"
  then show "ask w request =
          (case chat (ANSWER_INSTRUCTIONS @ ''Summary: '' @ take 2500 summary @ ''\<newline>''
                        @ ''Question: '' @ take 500 question) of
             Inr answer \<Rightarrow>
               (JObj [(''success'', JBool True), (''answer'', answer),
                      (''prompt_count'', JInt (n + 1))], 200)
           | Inl e \<Rightarrow>
               (JObj [(''verification'', JBool False),
                      (''error'', JStr (''Internal server error '' @ str_exn (message_of w) e))],
                500))"
    using ask_sends [of request kvs question count_value summary n w chat] by simp
qed


theorem prompt_truncation_witness:
  "summary_prompt (replicate 10000 (CHR ''a'') @ ''beyond'') =
     SUMMARY_INSTRUCTIONS @ replicate 10000 (CHR ''a'')
   \<and> summary_prompt ''Hello world this is a test'' =
     SUMMARY_INSTRUCTIONS @ ''Hello world this is a test''
   \<and> answer_prompt (fixture_world JNull JNull)
         (JStr (replicate 2500 (CHR ''s'') @ ''beyond''))
         (JStr (replicate 500 (CHR ''q'') @ ''beyond'')) =
     Inr (ANSWER_INSTRUCTIONS @ ''Summary: '' @ replicate 2500 (CHR ''s'') @ ''\<newline>''
            @ ''Question: '' @ replicate 500 (CHR ''q''))"
proof -
  note long = prompt_truncation [THEN conjunct2, THEN conjunct2, THEN conjunct1,
      of "replicate 10000 (CHR ''a'')" "''beyond''"]
  note short = prompt_truncation [THEN conjunct2, THEN conjunct1,
      of "''Hello world this is a test''"]
  note both = prompt_truncation [THEN conjunct2, THEN conjunct2, THEN conjunct2,
      THEN conjunct2, THEN conjunct2, THEN conjunct2, THEN conjunct1,
      of "replicate 2500 (CHR ''s'')" "replicate 500 (CHR ''q'')" "fixture_world JNull JNull"
         "''beyond''" "''beyond''"]
  have "summary_prompt (replicate 10000 (CHR ''a'') @ ''beyond'') =
     SUMMARY_INSTRUCTIONS @ replicate 10000 (CHR ''a'')"
    using long by (simp only: length_replicate simp_thms)
  moreover have "summary_prompt ''Hello world this is a test'' =
     SUMMARY_INSTRUCTIONS @ ''Hello world this is a test''"
    using short by simp
  moreover have "answer_prompt (fixture_world JNull JNull)
         (JStr (replicate 2500 (CHR ''s'') @ ''beyond''))
         (JStr (replicate 500 (CHR ''q'') @ ''beyond'')) =
     Inr (ANSWER_INSTRUCTIONS @ ''Summary: '' @ replicate 2500 (CHR ''s'') @ ''\<newline>''
            @ ''Question: '' @ replicate 500 (CHR ''q''))"
    using both by (simp only: length_replicate simp_thms)
  ultimately show ?thesis by (simp only: simp_thms)
qed

section \<open>Flattening the caption document\<close>

lemma py_in_JObj_map_of: "py_in k (JObj kvs) = Inr (map_of kvs k \<noteq> None)"
  by (simp add: map_of_eq_None_iff)

lemma segment_step:
  assumes "well_formed_segment seg"
  shows "and_then (py_in ''utf8'' seg) (\<lambda>has_text.
           if has_text then and_then (getitem seg ''utf8'') (\<lambda>text. F (acc @ [text]))
           else F acc)
         = F (acc @ map JStr (segment_texts seg))"
  using assms
  by (auto simp: well_formed_segment_def segment_texts_def getitem_def py_in_JObj_map_of
      simp del: py_in_JObj split: json.splits option.splits)

lemma segs_loop_well_formed:
  "list_all well_formed_segment segs \<Longrightarrow>
   segs_loop segs acc = Inr (acc @ map JStr (concat (map segment_texts segs)))"
proof (induction segs arbitrary: acc)
  case Nil
  then show ?case by simp
next
  case (Cons seg segs)
  then have wf: "well_formed_segment seg" and rest: "list_all well_formed_segment segs"
    by simp_all
  show ?case
    using segment_step [OF wf, of "segs_loop segs" acc] Cons.IH [OF rest]
    by simp
qed

lemma event_step:
  assumes "well_formed_event event"
  shows "and_then (py_in ''segs'' event) (\<lambda>has_segs.
           if has_segs then
             and_then (getitem event ''segs'') (\<lambda>segs_value.
             and_then (iter segs_value) (\<lambda>segs.
             and_then (segs_loop segs acc) F))
           else F acc)
         = F (acc @ map JStr (event_texts event))"
  using assms
  by (auto simp: well_formed_event_def event_texts_def getitem_def iter_def py_in_JObj_map_of
      segs_loop_well_formed simp del: py_in_JObj split: json.splits option.splits)

lemma events_loop_well_formed:
  "list_all well_formed_event events \<Longrightarrow>
   events_loop events acc = Inr (acc @ map JStr (concat (map event_texts events)))"
proof (induction events arbitrary: acc)
  case Nil
  then show ?case by simp
next
  case (Cons event events)
  then have wf: "well_formed_event event" and rest: "list_all well_formed_event events"
    by simp_all
  show ?case
    using event_step [OF wf, of acc "events_loop events"] Cons.IH [OF rest]
    by simp
qed

lemma transcript_parts_well_formed:
  "well_formed_document document \<Longrightarrow>
   transcript_parts_of document = Inr (map JStr (document_texts document))"
  by (auto simp: well_formed_document_def document_texts_def transcript_parts_of_def
      get_default_def iter_def events_loop_well_formed split: json.splits option.splits)

lemma strings_map_JStr [simp]: "strings (map JStr ss) = Some ss"
  by (induction ss) simp_all

lemma py_join_strings [simp]: "py_join sep (map JStr ss) = Inr (join sep ss)"
  by (simp add: py_join_def)

lemma strip_empty_iff: "strip s = [] \<longleftrightarrow> list_all isspace s"
proof
  assume "strip s = []"
  then have "\<forall>c \<in> set (dropWhile isspace s). isspace c"
    by (simp add: strip_def dropWhile_eq_Nil_conv)
  then have "dropWhile isspace s = []"
    using hd_dropWhile [of isspace s] by (cases "dropWhile isspace s") auto
  then show "list_all isspace s"
    by (simp add: dropWhile_eq_Nil_conv list_all_iff)
next
  assume "list_all isspace s"
  then have d: "dropWhile isspace s = []"
    by (simp add: dropWhile_eq_Nil_conv list_all_iff)
  show "strip s = []"
    unfolding strip_def d by simp
qed


text \<open>
  Claim C2. For every well-formed caption document the loops of lines 98 to 104 collect
  exactly the texts of the specification: for every event that has segments, for every
  segment that carries a text field, that text, in the original order; events without
  segments and segments without a text field contribute nothing. The transcript is
  these texts joined with single spaces (unless that is blank, which is an error).
  The events \<^verbatim>\<open>[{segs:[{utf8:"a"}]}, {segs:[{utf8:"b"}]}]\<close> flatten to \<^verbatim>\<open>"a b"\<close>.
\<close>

theorem transcript_flattening:
  assumes "well_formed_document document"
  shows "transcript_parts_of document = Inr (map JStr (document_texts document))
       \<and> (strip (join '' '' (document_texts document)) \<noteq> [] \<longrightarrow>
            transcript_text_of document = Inr (join '' '' (document_texts document)))
       \<and> (strip (join '' '' (document_texts document)) = [] \<longrightarrow>
            transcript_text_of document = Inl (Exception ''Transcript extracted but empty''))"
  using transcript_parts_well_formed [OF assms]
  by (simp add: transcript_text_of_def)

lemma caption_document_well_formed: "well_formed_document (caption_document texts)"
  by (simp add: caption_document_def well_formed_document_def well_formed_event_def
      well_formed_segment_def list_all_iff)

lemma caption_document_texts: "document_texts (caption_document texts) = texts"
  by (induction texts)
     (simp_all add: caption_document_def document_texts_def event_texts_def segment_texts_def)

theorem transcript_flattening_witness:
  "transcript_text_of (caption_document [''a'', ''b'']) = Inr ''a b''"
  using transcript_flattening [OF caption_document_well_formed, of "[''a'', ''b'']"]
  by (simp add: caption_document_texts strip_def isspace_def code_point_def)

lemma transcript_text_not_blank:
  "transcript_text_of subtitles = Inr text \<Longrightarrow> strip text \<noteq> []"
  by (auto simp: transcript_text_of_def and_then_def split: sum.splits if_splits)

lemma fetch_not_blank:
  "get_transcript_with_ytdlp w video_id = Inr text \<Longrightarrow> strip text \<noteq> []"
  by (auto simp: get_transcript_with_ytdlp_def fetch_body_def and_then_def
      dest: transcript_text_not_blank split: sum.splits if_splits)

text \<open>
  Claim C3. The fetcher never returns a transcript that is empty or consists of white
  space only: whatever \<^verbatim>\<open>transcript_text_of\<close> or \<^verbatim>\<open>get_transcript_with_ytdlp\<close> returns has
  a non-empty \<^verbatim>\<open>strip()\<close>. When the collected parts join to a string of white space only
  (the empty string included), flattening raises "Transcript extracted but empty", and
  the fetch that reached this document fails with that message behind the prefix of
  its \<^verbatim>\<open>except\<close> clause.
\<close>

theorem empty_transcript_fails:
  "(transcript_text_of subtitles = Inr text \<longrightarrow> strip text \<noteq> [] \<and> \<not> list_all isspace text)
   \<and> (get_transcript_with_ytdlp w video_id = Inr text \<longrightarrow>
        strip text \<noteq> [] \<and> \<not> list_all isspace text)
   \<and> (transcript_parts_of subtitles = Inr parts \<and> py_join '' '' parts = Inr joined
        \<and> list_all isspace joined \<longrightarrow>
        transcript_text_of subtitles = Inl (Exception ''Transcript extracted but empty''))
   \<and> (YT_DLP_AVAILABLE w
        \<and> extract_info w (''https://www.youtube.com/watch?v='' @ video_id) = Inr info
        \<and> subtitle_url_of info = Inr subtitle_url
        \<and> urlopen w subtitle_url = Inr subtitle_data
        \<and> json_loads w subtitle_data = Inr subtitles
        \<and> transcript_parts_of subtitles = Inr parts \<and> py_join '' '' parts = Inr joined
        \<and> list_all isspace joined \<longrightarrow>
        get_transcript_with_ytdlp w video_id =
          Inl (Exception ''Failed to fetch transcript with yt-dlp: Transcript extracted but empty''))"
proof (intro conjI impI)
  assume "transcript_text_of subtitles = Inr text"
  then show "strip text \<noteq> []" by (rule transcript_text_not_blank)
  then show "\<not> list_all isspace text" by (simp add: strip_empty_iff)
next
  assume "get_transcript_with_ytdlp w video_id = Inr text"
  then show "strip text \<noteq> []" by (rule fetch_not_blank)
  then show "\<not> list_all isspace text" by (simp add: strip_empty_iff)
next
  assume "transcript_parts_of subtitles = Inr parts \<and> py_join '' '' parts = Inr joined
        \<and> list_all isspace joined"
  then show "transcript_text_of subtitles = Inl (Exception ''Transcript extracted but empty'')"
    by (simp add: transcript_text_of_def strip_empty_iff)
next
  assume "YT_DLP_AVAILABLE w
        \<and> extract_info w (''https://www.youtube.com/watch?v='' @ video_id) = Inr info
        \<and> subtitle_url_of info = Inr subtitle_url
        \<and> urlopen w subtitle_url = Inr subtitle_data
        \<and> json_loads w subtitle_data = Inr subtitles
        \<and> transcript_parts_of subtitles = Inr parts \<and> py_join '' '' parts = Inr joined
        \<and> list_all isspace joined"
  then show "get_transcript_with_ytdlp w video_id =
          Inl (Exception ''Failed to fetch transcript with yt-dlp: Transcript extracted but empty'')"
    by (simp add: get_transcript_with_ytdlp_def fetch_body_def transcript_text_of_def
        strip_empty_iff str_exn_def)
qed


lemma both_info_url: "subtitle_url_of both_info = Inr (JStr ''manual-en'')"
  by (simp add: subtitle_url_of_def choose_subtitle_url_def in_and_truthy_def first_url_def
      both_info_def track_def getitem_def getitem0_def truthy_def)

theorem empty_transcript_fails_witness:
  "get_transcript_with_ytdlp
     (fixture_world both_info (caption_document ['' '', ''\<newline>''])) ''abc123'' =
   Inl (Exception ''Failed to fetch transcript with yt-dlp: Transcript extracted but empty'')"
proof -
  let ?doc = "caption_document ['' '', ''\<newline>'']"
  have parts: "transcript_parts_of ?doc = Inr (map JStr ['' '', ''\<newline>''])"
    using transcript_parts_well_formed [OF caption_document_well_formed, of "['' '', ''\<newline>'']"]
    by (simp only: caption_document_texts)
  have joined: "py_join '' '' (map JStr ['' '', ''\<newline>'']) = Inr ''  \<newline>''"
    by (simp add: py_join_def)
  have blank: "list_all isspace ''  \<newline>''"
    by (simp add: isspace_def code_point_def)
  show ?thesis
    using empty_transcript_fails [THEN conjunct2, THEN conjunct2, THEN conjunct2,
        of "fixture_world both_info ?doc" "''abc123''" both_info "JStr ''manual-en''"
           "''payload''" ?doc "map JStr ['' '', ''\<newline>'']" "''  \<newline>''"]
      parts joined blank both_info_url
    by simp
qed

section \<open>Choosing the caption track\<close>

lemma in_and_truthy_JObj:
  "in_and_truthy (JObj kvs) k = Inr (case map_of kvs k of None \<Rightarrow> False | Some v \<Rightarrow> truthy v)"
  by (auto simp: in_and_truthy_def getitem_def map_of_eq_None_iff [symmetric]
      split: option.splits)

lemma no_collection_falsy:
  "no_collection kvs name \<Longrightarrow> in_and_truthy (JObj kvs) name = Inr False"
  by (auto simp: no_collection_def in_and_truthy_JObj truthy_def)

lemma first_url_delivery:
  "map_of captions lang = Some tracks \<Longrightarrow>
   and_then (first_url (JObj captions) lang) (\<lambda>subtitle_url.
     if \<not> truthy subtitle_url then Inl (Exception ''Could not find subtitle URL'')
     else Inr subtitle_url) = delivery_url tracks"
  by (simp add: first_url_def delivery_url_def getitem_JObj_Some and_then_def
      split: sum.splits)

lemma choose_manual_english:
  assumes "map_of kvs ''subtitles'' = Some (JObj manual)" and "map_of manual ''en'' = Some tracks"
  shows "subtitle_url_of (JObj kvs) = delivery_url tracks"
proof -
  have "manual \<noteq> []" using assms(2) by auto
  then have "choose_subtitle_url (JObj kvs) = first_url (JObj manual) ''en''"
    using assms
    by (simp add: choose_subtitle_url_def in_and_truthy_JObj truthy_def getitem_JObj_Some
        map_of_Some_key)
  then show ?thesis
    using first_url_delivery [OF assms(2)] by (simp add: subtitle_url_of_def)
qed

lemma choose_manual_first:
  assumes "map_of kvs ''subtitles'' = Some (JObj ((lang, tracks) # manual))"
    and "map_of ((lang, tracks) # manual) ''en'' = None"
  shows "subtitle_url_of (JObj kvs) = delivery_url tracks"
proof -
  have no_en: "''en'' \<notin> fst ` set ((lang, tracks) # manual)"
    using assms(2) by (rule map_of_eq_None_iff [THEN iffD1])
  have "choose_subtitle_url (JObj kvs) = first_url (JObj ((lang, tracks) # manual)) lang"
    using assms(1) no_en
    by (simp add: choose_subtitle_url_def in_and_truthy_JObj truthy_def getitem_JObj_Some
        keys_def)
  then show ?thesis
    using first_url_delivery [of "(lang, tracks) # manual" lang tracks]
    by (simp add: subtitle_url_of_def)
qed

lemma choose_automatic_english:
  assumes "no_collection kvs ''subtitles''"
    and "map_of kvs ''automatic_captions'' = Some (JObj automatic)"
    and "map_of automatic ''en'' = Some tracks"
  shows "subtitle_url_of (JObj kvs) = delivery_url tracks"
proof -
  have "automatic \<noteq> []" using assms(3) by auto
  then have a: "in_and_truthy (JObj kvs) ''automatic_captions'' = Inr True"
    using assms(2) by (simp add: in_and_truthy_JObj truthy_def)
  have m: "in_and_truthy (JObj kvs) ''subtitles'' = Inr False"
    using assms(1) by (rule no_collection_falsy)
  have "choose_subtitle_url (JObj kvs) = first_url (JObj automatic) ''en''"
    using assms(2,3)
    by (simp add: choose_subtitle_url_def m a getitem_JObj_Some map_of_Some_key)
  then show ?thesis
    using first_url_delivery [OF assms(3)] by (simp add: subtitle_url_of_def)
qed

lemma choose_automatic_foreign:
  assumes "no_collection kvs ''subtitles''"
    and "map_of kvs ''automatic_captions'' = Some (JObj automatic)"
    and "automatic \<noteq> []" and "map_of automatic ''en'' = None"
  shows "subtitle_url_of (JObj kvs) = Inl (Exception ''Could not find subtitle URL'')"
proof -
  have no_en: "''en'' \<notin> fst ` set automatic"
    using assms(4) by (rule map_of_eq_None_iff [THEN iffD1])
  have a: "in_and_truthy (JObj kvs) ''automatic_captions'' = Inr True"
    using assms(2,3) by (simp add: in_and_truthy_JObj truthy_def)
  have m: "in_and_truthy (JObj kvs) ''subtitles'' = Inr False"
    using assms(1) by (rule no_collection_falsy)
  have "choose_subtitle_url (JObj kvs) = Inr JNull"
    using assms(2) no_en
    by (simp add: choose_subtitle_url_def m a getitem_JObj_Some)
  then show ?thesis
    by (simp add: subtitle_url_of_def truthy_def)
qed

lemma choose_nothing:
  assumes "no_collection kvs ''subtitles''" and "no_collection kvs ''automatic_captions''"
  shows "subtitle_url_of (JObj kvs) = Inl (Exception ''No captions available for this video'')"
  using assms by (simp add: subtitle_url_of_def choose_subtitle_url_def no_collection_falsy)

lemma fetch_fails_at_choice:
  assumes "YT_DLP_AVAILABLE w"
    and "extract_info w (''https://www.youtube.com/watch?v='' @ video_id) = Inr info"
    and "subtitle_url_of info = Inl (Exception m)"
  shows "get_transcript_with_ytdlp w video_id =
           Inl (Exception (''Failed to fetch transcript with yt-dlp: '' @ m))"
  using assms by (simp add: get_transcript_with_ytdlp_def fetch_body_def str_exn_def)

lemma delivery_url_first:
  "map_of t ''url'' = Some (JStr u) \<Longrightarrow> u \<noteq> [] \<Longrightarrow>
   delivery_url (JList (JObj t # rest)) = Inr (JStr u)"
  by (simp add: delivery_url_def getitem0_def getitem_JObj_Some truthy_def)

text \<open>
  Claim C1. For metadata that is a dictionary, the choice of lines 68 to 89 follows the
  precedence of the specification. (a) When the manual collection has an English
  entry, the delivery URL of the English manual track list is taken. (b) When the
  manual collection is non-empty and has no English entry, that of its first listed
  language is taken. (c) When there is no manual collection (or an empty one) and the
  automatic collection has an English entry, that of the English automatic track list
  is taken. (d) When there is no manual collection and the automatic collection is
  non-empty without an English entry, nothing is chosen: the fetch fails with "Could
  not find subtitle URL" and does not fall back to the first automatic language. (e)
  When there is neither, the fetch fails with "No captions available for this video".
  The delivery URL of a track list whose first entry has a non-empty \<^verbatim>\<open>url\<close> string is
  that string.
\<close>

theorem caption_track_precedence:
  "(map_of kvs ''subtitles'' = Some (JObj manual) \<and> map_of manual ''en'' = Some tracks \<longrightarrow>
      subtitle_url_of (JObj kvs) = delivery_url tracks)
   \<and> (map_of kvs ''subtitles'' = Some (JObj ((lang, tracks) # manual))
        \<and> map_of ((lang, tracks) # manual) ''en'' = None \<longrightarrow>
      subtitle_url_of (JObj kvs) = delivery_url tracks)
   \<and> (no_collection kvs ''subtitles''
        \<and> map_of kvs ''automatic_captions'' = Some (JObj automatic)
        \<and> map_of automatic ''en'' = Some tracks \<longrightarrow>
      subtitle_url_of (JObj kvs) = delivery_url tracks)
   \<and> (no_collection kvs ''subtitles''
        \<and> map_of kvs ''automatic_captions'' = Some (JObj automatic)
        \<and> automatic \<noteq> [] \<and> map_of automatic ''en'' = None \<longrightarrow>
      subtitle_url_of (JObj kvs) = Inl (Exception ''Could not find subtitle URL''))
   \<and> (no_collection kvs ''subtitles'' \<and> no_collection kvs ''automatic_captions'' \<longrightarrow>
      subtitle_url_of (JObj kvs) = Inl (Exception ''No captions available for this video''))
   \<and> (YT_DLP_AVAILABLE w
        \<and> extract_info w (''https://www.youtube.com/watch?v='' @ video_id) = Inr (JObj kvs)
        \<and> no_collection kvs ''subtitles''
        \<and> map_of kvs ''automatic_captions'' = Some (JObj automatic)
        \<and> automatic \<noteq> [] \<and> map_of automatic ''en'' = None \<longrightarrow>
      get_transcript_with_ytdlp w video_id =
        Inl (Exception ''Failed to fetch transcript with yt-dlp: Could not find subtitle URL''))
   \<and> (YT_DLP_AVAILABLE w
        \<and> extract_info w (''https://www.youtube.com/watch?v='' @ video_id) = Inr (JObj kvs)
        \<and> no_collection kvs ''subtitles'' \<and> no_collection kvs ''automatic_captions'' \<longrightarrow>
      get_transcript_with_ytdlp w video_id =
        Inl (Exception
          ''Failed to fetch transcript with yt-dlp: No captions available for this video''))
   \<and> (map_of track_fields ''url'' = Some (JStr url) \<and> url \<noteq> [] \<longrightarrow>
      delivery_url (JList (JObj track_fields # more_tracks)) = Inr (JStr url))"
proof (intro conjI impI)
  assume "map_of kvs ''subtitles'' = Some (JObj manual) \<and> map_of manual ''en'' = Some tracks"
  then show "subtitle_url_of (JObj kvs) = delivery_url tracks"
    by (simp add: choose_manual_english)
next
  assume "map_of kvs ''subtitles'' = Some (JObj ((lang, tracks) # manual))
        \<and> map_of ((lang, tracks) # manual) ''en'' = None"
  then show "subtitle_url_of (JObj kvs) = delivery_url tracks"
    using choose_manual_first [of kvs lang tracks manual] by blast
next
  assume "no_collection kvs ''subtitles''
        \<and> map_of kvs ''automatic_captions'' = Some (JObj automatic)
        \<and> map_of automatic ''en'' = Some tracks"
  then show "subtitle_url_of (JObj kvs) = delivery_url tracks"
    using choose_automatic_english [of kvs automatic tracks] by blast
next
  assume "no_collection kvs ''subtitles''
        \<and> map_of kvs ''automatic_captions'' = Some (JObj automatic)
        \<and> automatic \<noteq> [] \<and> map_of automatic ''en'' = None"
  then show "subtitle_url_of (JObj kvs) = Inl (Exception ''Could not find subtitle URL'')"
    using choose_automatic_foreign [of kvs automatic] by blast
next
  assume "no_collection kvs ''subtitles'' \<and> no_collection kvs ''automatic_captions''"
  then show "subtitle_url_of (JObj kvs) = Inl (Exception ''No captions available for this video'')"
    using choose_nothing [of kvs] by blast
next
  assume a: "YT_DLP_AVAILABLE w
        \<and> extract_info w (''https://www.youtube.com/watch?v='' @ video_id) = Inr (JObj kvs)
        \<and> no_collection kvs ''subtitles''
        \<and> map_of kvs ''automatic_captions'' = Some (JObj automatic)
        \<and> automatic \<noteq> [] \<and> map_of automatic ''en'' = None"
  then have "subtitle_url_of (JObj kvs) = Inl (Exception ''Could not find subtitle URL'')"
    using choose_automatic_foreign [of kvs automatic] by blast
  with a show "get_transcript_with_ytdlp w video_id =
        Inl (Exception ''Failed to fetch transcript with yt-dlp: Could not find subtitle URL'')"
    using fetch_fails_at_choice [of w video_id "JObj kvs" "''Could not find subtitle URL''"]
    by simp
next
  assume a: "YT_DLP_AVAILABLE w
        \<and> extract_info w (''https://www.youtube.com/watch?v='' @ video_id) = Inr (JObj kvs)
        \<and> no_collection kvs ''subtitles'' \<and> no_collection kvs ''automatic_captions''"
  then have "subtitle_url_of (JObj kvs) = Inl (Exception ''No captions available for this video'')"
    using choose_nothing [of kvs] by blast
  with a show "get_transcript_with_ytdlp w video_id =
        Inl (Exception
          ''Failed to fetch transcript with yt-dlp: No captions available for this video'')"
    using fetch_fails_at_choice [of w video_id "JObj kvs"
        "''No captions available for this video''"]
    by simp
next
  assume "map_of track_fields ''url'' = Some (JStr url) \<and> url \<noteq> []"
  then show "delivery_url (JList (JObj track_fields # more_tracks)) = Inr (JStr url)"
    by (simp add: delivery_url_first)
qed


lemma delivery_url_track: "delivery_url (JList [track (c # cs)]) = Inr (JStr (c # cs))"
  by (simp add: delivery_url_def getitem0_def getitem_def track_def truthy_def)

theorem caption_track_precedence_witness:
  "subtitle_url_of both_info = Inr (JStr ''manual-en'')
   \<and> subtitle_url_of foreign_info = Inr (JStr ''manual-fr'')
   \<and> subtitle_url_of (automatic_info ''en'') = Inr (JStr ''auto'')
   \<and> subtitle_url_of (automatic_info ''fr'') = Inl (Exception ''Could not find subtitle URL'')
   \<and> get_transcript_with_ytdlp
        (fixture_world (automatic_info ''fr'') (caption_document [''a''])) ''abc123'' =
      Inl (Exception ''Failed to fetch transcript with yt-dlp: Could not find subtitle URL'')"
proof -
  let ?en = "JList [track ''manual-en'']" and ?fr = "JList [track ''manual-fr'']"
  let ?de = "JList [track ''manual-de'']" and ?auto_en = "JList [track ''auto-en'']"
  let ?auto = "JList [track ''auto'']"
  let ?w = "fixture_world (automatic_info ''fr'') (caption_document [''a''])"
  have "subtitle_url_of both_info = delivery_url ?en"
    unfolding both_info_def
    using caption_track_precedence [THEN conjunct1,
        of "[(''id'', JStr ''abc123''), (''subtitles'', JObj [(''fr'', ?fr), (''en'', ?en)]),
            (''automatic_captions'', JObj [(''en'', ?auto_en)])]"
           "[(''fr'', ?fr), (''en'', ?en)]" ?en]
    by simp
  moreover have "subtitle_url_of foreign_info = delivery_url ?fr"
    unfolding foreign_info_def
    using caption_track_precedence [THEN conjunct2, THEN conjunct1,
        of "[(''id'', JStr ''abc123''), (''subtitles'', JObj [(''fr'', ?fr), (''de'', ?de)]),
            (''automatic_captions'', JObj [(''en'', ?auto_en)])]"
           "''fr''" ?fr "[(''de'', ?de)]"]
    by simp
  moreover have "subtitle_url_of (automatic_info ''en'') = delivery_url ?auto"
    unfolding automatic_info_def
    using caption_track_precedence [THEN conjunct2, THEN conjunct2, THEN conjunct1,
        of "[(''id'', JStr ''abc123''), (''subtitles'', JObj []),
            (''automatic_captions'', JObj [(''en'', ?auto)])]"
           "[(''en'', ?auto)]" ?auto]
    by (simp add: no_collection_def)
  moreover have "subtitle_url_of (automatic_info ''fr'') =
      Inl (Exception ''Could not find subtitle URL'')"
    unfolding automatic_info_def
    using caption_track_precedence [THEN conjunct2, THEN conjunct2, THEN conjunct2,
        THEN conjunct1,
        of "[(''id'', JStr ''abc123''), (''subtitles'', JObj []),
            (''automatic_captions'', JObj [(''fr'', ?auto)])]"
           "[(''fr'', ?auto)]"]
    by (simp add: no_collection_def)
  moreover have "get_transcript_with_ytdlp ?w ''abc123'' =
      Inl (Exception ''Failed to fetch transcript with yt-dlp: Could not find subtitle URL'')"
    using caption_track_precedence [THEN conjunct2, THEN conjunct2, THEN conjunct2,
        THEN conjunct2, THEN conjunct2, THEN conjunct1,
        of ?w "''abc123''"
           "[(''id'', JStr ''abc123''), (''subtitles'', JObj []),
            (''automatic_captions'', JObj [(''fr'', ?auto)])]"
           "[(''fr'', ?auto)]"]
    by (simp add: no_collection_def automatic_info_def)
  ultimately show ?thesis
    by (simp add: delivery_url_track)
qed

section \<open>Extracting the video identifier\<close>

lemma endswith_iff: "endswith s m \<longleftrightarrow> (\<exists>p. s = p @ m)"
proof
  assume "endswith s m"
  then have "s = take (length s - length m) s @ m"
    by (metis append_take_drop_id endswith_def)
  then show "\<exists>p. s = p @ m" ..
next
  assume "\<exists>p. s = p @ m"
  then show "endswith s m" by (auto simp: endswith_def)
qed

lemma lookbehind_iff: "lookbehind s \<longleftrightarrow> (\<exists>p m. is_marker m \<and> s = p @ m)"
  unfolding lookbehind_def endswith_iff is_marker_def by blast

lemma takeWhile_run:
  "list_all P run \<Longrightarrow> rest = [] \<or> \<not> P (hd rest) \<Longrightarrow> takeWhile P (run @ rest) = run"
  by (cases rest) (auto simp: list_all_iff takeWhile_append2)

lemma re_search_None_iff:
  "re_search b r = None \<longleftrightarrow> (\<forall>p c r'. r = p @ c # r' \<longrightarrow> \<not> (lookbehind (b @ p) \<and> id_char c))"
proof (induction r arbitrary: b)
  case Nil
  then show ?case by simp
next
  case (Cons c cs)
  show ?case
  proof (cases "lookbehind b \<and> id_char c")
    case True
    then have "\<exists>p c' r'. c # cs = p @ c' # r' \<and> lookbehind (b @ p) \<and> id_char c'"
      by (intro exI [of _ "[]"] exI [of _ c] exI [of _ cs]) simp
    with True show ?thesis by auto
  next
    case False
    have "(\<forall>p c' r'. c # cs = p @ c' # r' \<longrightarrow> \<not> (lookbehind (b @ p) \<and> id_char c'))
        \<longleftrightarrow> (\<forall>p c' r'. cs = p @ c' # r' \<longrightarrow> \<not> (lookbehind ((b @ [c]) @ p) \<and> id_char c'))"
      (is "?L \<longleftrightarrow> ?R")
    proof
      assume l: ?L
      show ?R
      proof (intro allI impI)
        fix p c' r' assume "cs = p @ c' # r'"
        then have "c # cs = (c # p) @ c' # r'" by simp
        with l have "\<not> (lookbehind (b @ c # p) \<and> id_char c')" by blast
        then show "\<not> (lookbehind ((b @ [c]) @ p) \<and> id_char c')" by simp
      qed
    next
      assume r: ?R
      show ?L
      proof (intro allI impI)
        fix p c' r' assume eq: "c # cs = p @ c' # r'"
        show "\<not> (lookbehind (b @ p) \<and> id_char c')"
        proof (cases p)
          case Nil
          with eq False show ?thesis by simp
        next
          case (Cons x q)
          with eq have "x = c" "cs = q @ c' # r'" by simp_all
          with r have "\<not> (lookbehind ((b @ [c]) @ q) \<and> id_char c')" by blast
          with Cons \<open>x = c\<close> show ?thesis by simp
        qed
      qed
    qed
    moreover have "re_search b (c # cs) = re_search (b @ [c]) cs"
      using False by auto
    ultimately show ?thesis
      using Cons.IH [of "b @ [c]"] by (simp only:)
  qed
qed

lemma re_search_leftmost:
  assumes "lookbehind (b @ p)" and "run \<noteq> []" and "list_all id_char run"
    and "rest = [] \<or> \<not> id_char (hd rest)"
    and "\<forall>q c r'. p @ run @ rest = q @ c # r' \<and> lookbehind (b @ q) \<and> id_char c
           \<longrightarrow> length p \<le> length q"
  shows "re_search b (p @ run @ rest) = Some run"
  using assms
proof (induction p arbitrary: b)
  case Nil
  obtain c cs where run: "run = c # cs" using Nil.prems(2) by (cases run) auto
  then have "id_char c" using Nil.prems(3) by simp
  moreover have "lookbehind b" using Nil.prems(1) by simp
  moreover have "takeWhile id_char (run @ rest) = run"
    using Nil.prems(3,4) by (rule takeWhile_run)
  ultimately show ?case using run by simp
next
  case (Cons x p)
  have no: "\<not> (lookbehind b \<and> id_char x)"
  proof
    assume "lookbehind b \<and> id_char x"
    then have "(x # p) @ run @ rest = [] @ x # (p @ run @ rest) \<and> lookbehind (b @ []) \<and> id_char x"
      by simp
    with Cons.prems(5) have "length (x # p) \<le> length ([] :: string)" by blast
    then show False by simp
  qed
  have "re_search b ((x # p) @ run @ rest) = re_search (b @ [x]) (p @ run @ rest)"
    using no by auto
  moreover have "re_search (b @ [x]) (p @ run @ rest) = Some run"
  proof (rule Cons.IH)
    show "lookbehind ((b @ [x]) @ p)" using Cons.prems(1) by simp
    show "run \<noteq> []" by fact
    show "list_all id_char run" by fact
    show "rest = [] \<or> \<not> id_char (hd rest)" by fact
    show "\<forall>q c r'. p @ run @ rest = q @ c # r' \<and> lookbehind ((b @ [x]) @ q) \<and> id_char c
           \<longrightarrow> length p \<le> length q"
    proof (intro allI impI)
      fix q c r' assume a: "p @ run @ rest = q @ c # r' \<and> lookbehind ((b @ [x]) @ q) \<and> id_char c"
      then have "(x # p) @ run @ rest = (x # q) @ c # r' \<and> lookbehind (b @ x # q) \<and> id_char c"
        by simp
      with Cons.prems(5) have "length (x # p) \<le> length (x # q)" by blast
      then show "length p \<le> length q" by simp
    qed
  qed
  ultimately show ?case by (simp only:)
qed

lemma re_search_Some:
  "re_search b r = Some run \<Longrightarrow>
   \<exists>p rest. r = p @ run @ rest \<and> lookbehind (b @ p) \<and> run \<noteq> [] \<and> list_all id_char run
     \<and> (rest = [] \<or> \<not> id_char (hd rest))"
proof (induction r arbitrary: b)
  case Nil
  then show ?case by simp
next
  case (Cons c cs)
  show ?case
  proof (cases "lookbehind b \<and> id_char c")
    case True
    with Cons.prems have run: "run = takeWhile id_char (c # cs)" by simp
    let ?rest = "dropWhile id_char (c # cs)"
    have "c # cs = [] @ run @ ?rest" by (simp add: run)
    moreover have "lookbehind (b @ [])" using True by simp
    moreover have "run \<noteq> []" using True run by simp
    moreover have "list_all id_char run"
      unfolding run list_all_iff by (meson set_takeWhileD)
    moreover have "?rest = [] \<or> \<not> id_char (hd ?rest)"
      using hd_dropWhile [of id_char "c # cs"] by blast
    ultimately show ?thesis by blast
  next
    case False
    with Cons.prems have "re_search (b @ [c]) cs = Some run" by simp
    from Cons.IH [OF this] obtain p rest where
      "cs = p @ run @ rest" "lookbehind ((b @ [c]) @ p)" "run \<noteq> []" "list_all id_char run"
      "rest = [] \<or> \<not> id_char (hd rest)" by blast
    then have "c # cs = (c # p) @ run @ rest \<and> lookbehind (b @ c # p) \<and> run \<noteq> []
      \<and> list_all id_char run \<and> (rest = [] \<or> \<not> id_char (hd rest))" by simp
    then show ?thesis by blast
  qed
qed

lemma get_video_id_re_search: "get_video_id url = re_search [] url"
  by (simp add: get_video_id_def)

lemma append_eq_shorter:
  assumes "u @ tail = q @ c # r" and "length q < length u"
  shows "\<exists>r'. u = q @ c # r'"
proof -
  obtain k where k: "length u - length q = Suc k"
    using assms(2) by (metis Suc_diff_Suc)
  have "u = take (length u) (u @ tail)" by simp
  also have "\<dots> = take (length u) (q @ c # r)" by (simp only: assms(1))
  also have "\<dots> = q @ c # take k r" using assms(2) k by simp
  finally show ?thesis by blast
qed

lemma no_earlier_match_aux:
  assumes "re_search [] u = None"
    and "is_marker m" and "u @ tail = p @ m @ c # r" and "id_char c"
  shows "length u \<le> length (p @ m)"
proof (rule ccontr)
  assume "\<not> length u \<le> length (p @ m)"
  then have "length (p @ m) < length u" by simp
  moreover have "u @ tail = (p @ m) @ c # r" using assms(3) by simp
  ultimately obtain r' where u: "u = (p @ m) @ c # r'"
    using append_eq_shorter [of u tail "p @ m" c r] by blast
  have "lookbehind ([] @ p @ m)"
    using assms(2) lookbehind_iff [of "p @ m"] by auto
  moreover have "\<not> (lookbehind ([] @ p @ m) \<and> id_char c)"
    using assms(1) u re_search_None_iff [of "[]" u] by blast
  ultimately show False using assms(4) by simp
qed

lemma no_earlier_match:
  assumes "re_search [] u = None"
  shows "\<forall>p m c r. (m = ''v='' \<or> m = ''youtu.be/'') \<and> u @ tail = p @ m @ c # r \<and> id_char c
           \<longrightarrow> length u \<le> length (p @ m)"
  using no_earlier_match_aux [OF assms] unfolding is_marker_def by blast

lemma get_video_id_Some_aux:
  assumes "is_marker marker" and "identifier \<noteq> []" and "list_all id_char identifier"
    and "rest = [] \<or> \<not> id_char (hd rest)"
    and "\<forall>p m c r. is_marker m \<and> before @ marker @ identifier @ rest = p @ m @ c # r \<and> id_char c
           \<longrightarrow> length (before @ marker) \<le> length (p @ m)"
  shows "get_video_id (before @ marker @ identifier @ rest) = Some identifier"
proof -
  have "re_search [] ((before @ marker) @ identifier @ rest) = Some identifier"
  proof (rule re_search_leftmost)
    show "lookbehind ([] @ before @ marker)"
      using assms(1) lookbehind_iff [of "before @ marker"] by auto
    show "identifier \<noteq> []" "list_all id_char identifier" "rest = [] \<or> \<not> id_char (hd rest)"
      by fact+
    show "\<forall>q c r'. (before @ marker) @ identifier @ rest = q @ c # r' \<and> lookbehind ([] @ q)
            \<and> id_char c \<longrightarrow> length (before @ marker) \<le> length q"
    proof (intro allI impI)
      fix q c r'
      assume b: "(before @ marker) @ identifier @ rest = q @ c # r' \<and> lookbehind ([] @ q)
            \<and> id_char c"
      then have "lookbehind q" by simp
      then obtain p m where pm: "is_marker m" "q = p @ m"
        using lookbehind_iff [of q] by blast
      have "is_marker m \<and> before @ marker @ identifier @ rest = p @ m @ c # r' \<and> id_char c"
        using b pm by simp
      then have "length (before @ marker) \<le> length (p @ m)"
        using assms(5) by blast
      then show "length (before @ marker) \<le> length q" using pm by simp
    qed
  qed
  then show ?thesis by (simp add: get_video_id_re_search)
qed

lemma get_video_id_None_iff_aux:
  "get_video_id url = None \<longleftrightarrow>
     (\<forall>p m c r. is_marker m \<and> url = p @ m @ c # r \<longrightarrow> \<not> id_char c)"
proof
  assume "get_video_id url = None"
  then have n: "\<forall>p c r'. url = p @ c # r' \<longrightarrow> \<not> (lookbehind ([] @ p) \<and> id_char c)"
    using re_search_None_iff [of "[]" url] by (simp add: get_video_id_re_search)
  show "\<forall>p m c r. is_marker m \<and> url = p @ m @ c # r \<longrightarrow> \<not> id_char c"
  proof (intro allI impI)
    fix p m c r
    assume a: "is_marker m \<and> url = p @ m @ c # r"
    then have "url = (p @ m) @ c # r" by simp
    moreover have "lookbehind ([] @ p @ m)"
      using a lookbehind_iff [of "p @ m"] by auto
    ultimately show "\<not> id_char c" using n by blast
  qed
next
  assume a: "\<forall>p m c r. is_marker m \<and> url = p @ m @ c # r \<longrightarrow> \<not> id_char c"
  have "\<forall>q c r'. url = q @ c # r' \<longrightarrow> \<not> (lookbehind ([] @ q) \<and> id_char c)"
  proof (intro allI impI)
    fix q c r'
    assume u: "url = q @ c # r'"
    show "\<not> (lookbehind ([] @ q) \<and> id_char c)"
    proof
      assume l: "lookbehind ([] @ q) \<and> id_char c"
      then have "lookbehind q" by simp
      then obtain p m where pm: "is_marker m" "q = p @ m"
        using lookbehind_iff [of q] by blast
      then have "is_marker m \<and> url = p @ m @ c # r'" using u by simp
      then have "\<not> id_char c" using a by blast
      then show False using l by simp
    qed
  qed
  then have "re_search [] url = None"
    using re_search_None_iff [of "[]" url] by simp
  then show "get_video_id url = None" by (simp add: get_video_id_re_search)
qed

lemma get_video_id_Some_decompose_aux:
  assumes "get_video_id url = Some identifier"
  shows "\<exists>before marker rest. is_marker marker
           \<and> url = before @ marker @ identifier @ rest \<and> identifier \<noteq> []
           \<and> list_all id_char identifier \<and> (rest = [] \<or> \<not> id_char (hd rest))"
proof -
  have "re_search [] url = Some identifier"
    using assms by (simp add: get_video_id_re_search)
  from re_search_Some [OF this] obtain p rest where
    r: "url = p @ identifier @ rest" "lookbehind p" "identifier \<noteq> []" "list_all id_char identifier"
       "rest = [] \<or> \<not> id_char (hd rest)" by auto
  from r(2) obtain before marker where pm: "is_marker marker" "p = before @ marker"
    using lookbehind_iff [of p] by blast
  have "is_marker marker \<and> url = before @ marker @ identifier @ rest \<and> identifier \<noteq> []
           \<and> list_all id_char identifier \<and> (rest = [] \<or> \<not> id_char (hd rest))"
    using r pm by simp
  then show ?thesis by blast
qed

text \<open>
  Claim C6, as amended. \<^verbatim>\<open>get_video_id\<close> returns the maximal run of word characters,
  \<^verbatim>\<open>-\<close> and \<^verbatim>\<open>_\<close> that follows the leftmost occurrence of \<^verbatim>\<open>v=\<close> or \<^verbatim>\<open>youtu.be/\<close> that is
  immediately followed by such a character: when the URL is
  \<open>before @ marker @ identifier @ rest\<close>, the identifier is a non-empty run of such
  characters that \<open>rest\<close> does not continue, and no marker followed by such a character
  ends earlier in the URL, the result is the identifier. Whatever it returns is such a
  run after a marker. It returns \<^verbatim>\<open>None\<close> exactly when no marker in the URL is followed by
  such a character, in particular for the empty string. The function is total: there
  is no input on which it raises.
\<close>

theorem get_video_id_leftmost:
  "((marker = ''v='' \<or> marker = ''youtu.be/'') \<and> identifier \<noteq> []
      \<and> list_all id_char identifier \<and> (rest = [] \<or> \<not> id_char (hd rest))
      \<and> (\<forall>p m c r. (m = ''v='' \<or> m = ''youtu.be/'')
             \<and> before @ marker @ identifier @ rest = p @ m @ c # r \<and> id_char c
             \<longrightarrow> length (before @ marker) \<le> length (p @ m)) \<longrightarrow>
      get_video_id (before @ marker @ identifier @ rest) = Some identifier)
   \<and> ((\<forall>p m c r. (m = ''v='' \<or> m = ''youtu.be/'') \<and> url = p @ m @ c # r \<longrightarrow> \<not> id_char c) \<longrightarrow>
      get_video_id url = None)
   \<and> get_video_id [] = None
   \<and> (get_video_id url = Some identifier \<longrightarrow>
        (\<exists>before marker rest. (marker = ''v='' \<or> marker = ''youtu.be/'')
           \<and> url = before @ marker @ identifier @ rest \<and> identifier \<noteq> []
           \<and> list_all id_char identifier \<and> (rest = [] \<or> \<not> id_char (hd rest))))
   \<and> (get_video_id url = None \<longrightarrow>
        (\<forall>p m c r. (m = ''v='' \<or> m = ''youtu.be/'') \<and> url = p @ m @ c # r \<longrightarrow> \<not> id_char c))"
proof -
  have one: "is_marker marker \<and> identifier \<noteq> []
      \<and> list_all id_char identifier \<and> (rest = [] \<or> \<not> id_char (hd rest))
      \<and> (\<forall>p m c r. is_marker m
             \<and> before @ marker @ identifier @ rest = p @ m @ c # r \<and> id_char c
             \<longrightarrow> length (before @ marker) \<le> length (p @ m)) \<longrightarrow>
      get_video_id (before @ marker @ identifier @ rest) = Some identifier"
  proof
    assume h: "is_marker marker \<and> identifier \<noteq> []
      \<and> list_all id_char identifier \<and> (rest = [] \<or> \<not> id_char (hd rest))
      \<and> (\<forall>p m c r. is_marker m
             \<and> before @ marker @ identifier @ rest = p @ m @ c # r \<and> id_char c
             \<longrightarrow> length (before @ marker) \<le> length (p @ m))"
    show "get_video_id (before @ marker @ identifier @ rest) = Some identifier"
      by (rule get_video_id_Some_aux) (use h in blast)+
  qed
  have two: "(\<forall>p m c r. is_marker m \<and> url = p @ m @ c # r \<longrightarrow> \<not> id_char c) \<longrightarrow>
      get_video_id url = None"
    using get_video_id_None_iff_aux [of url] by blast
  have three: "get_video_id [] = None" by (simp add: get_video_id_def)
  have four: "get_video_id url = Some identifier \<longrightarrow>
        (\<exists>before marker rest. is_marker marker
           \<and> url = before @ marker @ identifier @ rest \<and> identifier \<noteq> []
           \<and> list_all id_char identifier \<and> (rest = [] \<or> \<not> id_char (hd rest)))"
    by (intro impI) (rule get_video_id_Some_decompose_aux)
  have five: "get_video_id url = None \<longrightarrow>
        (\<forall>p m c r. is_marker m \<and> url = p @ m @ c # r \<longrightarrow> \<not> id_char c)"
    using get_video_id_None_iff_aux [of url] by blast
  show ?thesis
    using one two three four five unfolding is_marker_def by (intro conjI)
qed

lemmas url_eval = get_video_id_def lookbehind_def endswith_def id_char_def isalnum_def
  code_point_def

text \<open>
  Claim C6 as stated promises the identifier of every \<^verbatim>\<open>v=<id>\<close> marker and every
  short link in the URL. The first URL below has the query parameter \<^verbatim>\<open>v=abc123\<close>, and
  the result is \<^verbatim>\<open>1\<close>, the run after the \<^verbatim>\<open>v=\<close> that ends \<^verbatim>\<open>rev=\<close>; the second has both the short
  link \<^verbatim>\<open>/abc\<close> and the marker \<^verbatim>\<open>v=xyz\<close>, and the result is \<^verbatim>\<open>abc\<close>, not \<^verbatim>\<open>xyz\<close>.
\<close>

theorem get_video_id_first_marker_counterexample:
  "get_video_id ''https://www.youtube.com/watch?rev=1&v=abc123'' = Some ''1''
   \<and> get_video_id ''https://youtu.be/abc?v=xyz'' = Some ''abc''"
  by (simp add: url_eval)

theorem get_video_id_leftmost_witness:
  "get_video_id ''https://www.youtube.com/watch?v=abc123&t=10'' = Some ''abc123''
   \<and> get_video_id ''https://youtu.be/dQw4w9WgXcQ'' = Some ''dQw4w9WgXcQ''
   \<and> get_video_id [] = None"
proof -
  have watch: "re_search [] (''https://www.youtube.com/watch?'' @ ''v='') = None"
    by (simp add: url_eval)
  have watch_first:
    "\<forall>p m c r. (m = ''v='' \<or> m = ''youtu.be/'')
       \<and> ''https://www.youtube.com/watch?'' @ ''v='' @ ''abc123'' @ ''&t=10'' = p @ m @ c # r
       \<and> id_char c
       \<longrightarrow> length (''https://www.youtube.com/watch?'' @ ''v='') \<le> length (p @ m)"
    using no_earlier_match [OF watch, of "''abc123'' @ ''&t=10''"]
    by (simp only: append_assoc)
  have watch_run: "list_all id_char ''abc123''" "''&t=10'' = [] \<or> \<not> id_char (hd ''&t=10'')"
    by (simp_all add: id_char_def isalnum_def code_point_def)
  have "get_video_id (''https://www.youtube.com/watch?'' @ ''v='' @ ''abc123'' @ ''&t=10'')
          = Some ''abc123''"
    by (rule get_video_id_leftmost [THEN conjunct1, THEN mp])
       (intro conjI; (rule watch_first | rule watch_run | simp))
  then have one: "get_video_id ''https://www.youtube.com/watch?v=abc123&t=10'' = Some ''abc123''"
    by simp
  have short: "re_search [] (''https://'' @ ''youtu.be/'') = None"
    by (simp add: url_eval)
  have short_first:
    "\<forall>p m c r. (m = ''v='' \<or> m = ''youtu.be/'')
       \<and> ''https://'' @ ''youtu.be/'' @ ''dQw4w9WgXcQ'' @ [] = p @ m @ c # r
       \<and> id_char c
       \<longrightarrow> length (''https://'' @ ''youtu.be/'') \<le> length (p @ m)"
    using no_earlier_match [OF short, of "''dQw4w9WgXcQ'' @ []"]
    by (simp only: append_assoc)
  have short_run: "list_all id_char ''dQw4w9WgXcQ''"
    by (simp add: id_char_def isalnum_def code_point_def)
  have "get_video_id (''https://'' @ ''youtu.be/'' @ ''dQw4w9WgXcQ'' @ []) = Some ''dQw4w9WgXcQ''"
    by (rule get_video_id_leftmost [THEN conjunct1, THEN mp])
       (intro conjI; (rule short_first | rule short_run | simp))
  then have two: "get_video_id ''https://youtu.be/dQw4w9WgXcQ'' = Some ''dQw4w9WgXcQ''"
    by simp
  have three: "get_video_id [] = None"
    by (rule get_video_id_leftmost [THEN conjunct2, THEN conjunct2, THEN conjunct1])
  show ?thesis
    using one two three by (intro conjI)
qed

end
